theory Spec2Isabelle
  imports Main "HOL-Library.Sublist"
begin

section \<open>The catalog tree of app.py\<close>

text \<open>
  The manifest is the JSON document \<^verbatim>\<open>{"years": [...]}\<close> that \<^verbatim>\<open>json.load\<close> returns:
  dictionaries with fixed keys, nested through lists. Each dictionary of the schema is a
  record; the key \<^verbatim>\<open>"name"\<close> is the field \<open>yname\<close>, \<open>bname\<close> or \<open>sname\<close> according
  to its level, the key \<^verbatim>\<open>"type"\<close> is \<open>rtype\<close>. The keys \<^verbatim>\<open>"url"\<close> and \<^verbatim>\<open>"path"\<close>
  may be absent (read with \<^verbatim>\<open>.get\<close>), so they are options. Strings are lists of
  characters; Python's unbounded integers are natural numbers where they only count up.
\<close>

record resource =
  title :: string
  rtype :: string
  url :: "string option"
  path :: "string option"
  meta :: "(string \<times> string) list"

record subject =
  sname :: string
  resources :: "resource list"

record branch =
  bname :: string
  subjects :: "subject list"

record year =
  yname :: string
  branches :: "branch list"

record manifest =
  years :: "year list"

subsection \<open>Find or create\<close>

text \<open>
  \<^verbatim>\<open>for y in manifest["years"]: if y["name"] == year_name: return y\<close> returns the first
  dictionary of the list with that name. The function returns a reference into the tree,
  through which the caller mutates it: the model returns the position of that dictionary
  in its parent list, \<open>None\<close> when the loop falls through. The three functions run the
  same loop over their own list and key, so the loop is written once, over the field
  that reads the name.
\<close>

primrec find_named :: "('a \<Rightarrow> string) \<Rightarrow> 'a list \<Rightarrow> string \<Rightarrow> nat option" where
  "find_named name_of [] n = None"
| "find_named name_of (x # xs) n =
     (if name_of x = n then Some 0 else map_option Suc (find_named name_of xs n))"

text \<open>
  Each find-or-create returns the updated parent and the position of the returned node
  in it: the position found, or the last position after the append.
\<close>

definition find_or_create_year :: "manifest \<Rightarrow> string \<Rightarrow> manifest \<times> nat" where
  "find_or_create_year m year_name =
     (case find_named yname (years m) year_name of
        Some i \<Rightarrow> (m, i)
      | None \<Rightarrow>
          (m\<lparr>years := years m @ [\<lparr>yname = year_name, branches = []\<rparr>]\<rparr>, length (years m)))"

definition find_or_create_branch :: "year \<Rightarrow> string \<Rightarrow> year \<times> nat" where
  "find_or_create_branch year_obj branch_name =
     (case find_named bname (branches year_obj) branch_name of
        Some i \<Rightarrow> (year_obj, i)
      | None \<Rightarrow>
          (year_obj\<lparr>branches := branches year_obj @ [\<lparr>bname = branch_name, subjects = []\<rparr>]\<rparr>,
           length (branches year_obj)))"

definition find_or_create_subject :: "branch \<Rightarrow> string \<Rightarrow> branch \<times> nat" where
  "find_or_create_subject branch_obj subject_name =
     (case find_named sname (subjects branch_obj) subject_name of
        Some i \<Rightarrow> (branch_obj, i)
      | None \<Rightarrow>
          (branch_obj\<lparr>subjects := subjects branch_obj @ [\<lparr>sname = subject_name, resources = []\<rparr>]\<rparr>,
           length (subjects branch_obj)))"

text \<open>Calling a find-or-create \<open>k\<close> times with the same name on the same parent.\<close>

definition year_calls :: "nat \<Rightarrow> string \<Rightarrow> manifest \<Rightarrow> manifest" where
  "year_calls k year_name m = ((\<lambda>m. fst (find_or_create_year m year_name)) ^^ k) m"

definition branch_calls :: "nat \<Rightarrow> string \<Rightarrow> year \<Rightarrow> year" where
  "branch_calls k branch_name y = ((\<lambda>y. fst (find_or_create_branch y branch_name)) ^^ k) y"

definition subject_calls :: "nat \<Rightarrow> string \<Rightarrow> branch \<Rightarrow> branch" where
  "subject_calls k subject_name b = ((\<lambda>b. fst (find_or_create_subject b subject_name)) ^^ k) b"

subsection \<open>Strings\<close>


definition is_space :: "char \<Rightarrow> bool" where
  "is_space c = (of_char c \<in> {9, 10, 11, 12, 13, 28, 29, 30, 31, 32 :: nat})"

definition strip :: "string \<Rightarrow> string" where
  "strip s = rev (dropWhile is_space (rev (dropWhile is_space s)))"


definition digit_char :: "nat \<Rightarrow> char" where
  "digit_char d = char_of (48 + d)"

fun str_nat :: "nat \<Rightarrow> string" where
  "str_nat n = (if n < 10 then [digit_char n] else str_nat (n div 10) @ [digit_char (n mod 10)])"

subsection \<open>The file system and the manifest store\<close>

text \<open>
  The file system is a map from paths to the contents of the regular files there;
  directories are not modelled, so \<^verbatim>\<open>mkdir\<close> changes nothing in it. \<^verbatim>\<open>folder / name\<close>
  is the path the code itself records for a stored file, \<^verbatim>\<open>f"{STATIC_DIR}/{safe_name}"\<close>.
  \<^verbatim>\<open>os.path.exists("")\<close> is false.
\<close>

type_synonym fs = "string \<Rightarrow> string option"

definition MANIFEST_FILE :: string where
  "MANIFEST_FILE = ''manifest.json''"

definition STATIC_DIR :: string where
  "STATIC_DIR = ''static''"

definition path_join :: "string \<Rightarrow> string \<Rightarrow> string" where
  "path_join folder n = folder @ ''/'' @ n"

definition path_exists :: "fs \<Rightarrow> string \<Rightarrow> bool" where
  "path_exists fs p = (p \<noteq> [] \<and> fs p \<noteq> None)"

definition os_remove :: "fs \<Rightarrow> string \<Rightarrow> fs" where
  "os_remove fs p = fs(p := None)"

text \<open>
  \<^verbatim>\<open>json.dump(_, f, indent=2, ensure_ascii=False)\<close> belongs to Python's library: it is
  the parameter \<open>json_dump\<close> of the functions that call it. Both calls of \<^verbatim>\<open>json.dump\<close>
  in the source pass the same options, so they are the same function.
\<close>

datatype exn = JSONDecodeError | FileNotFoundError | AttributeError | KeyError

definition ensure_dirs :: "(manifest \<Rightarrow> string) \<Rightarrow> fs \<Rightarrow> fs" where
  "ensure_dirs json_dump fs =
     (if \<not> path_exists fs MANIFEST_FILE
      then fs(MANIFEST_FILE \<mapsto> json_dump \<lparr>years = []\<rparr>)
      else fs)"

definition save_manifest :: "(manifest \<Rightarrow> string) \<Rightarrow> manifest \<Rightarrow> fs \<Rightarrow> fs" where
  "save_manifest json_dump m fs = fs(MANIFEST_FILE \<mapsto> json_dump m)"

subsection \<open>Unique file names\<close>

text \<open>
  \<^verbatim>\<open>os.path.splitext\<close>: the extension starts at the last dot of the last path component,
  unless only dots precede it there. \<open>rfind\<close> is \<^verbatim>\<open>str.rfind\<close> of one character, \<open>-1\<close>
  when it does not occur.
\<close>

primrec rfind_from :: "int \<Rightarrow> string \<Rightarrow> char \<Rightarrow> int" where
  "rfind_from i [] c = -1"
| "rfind_from i (x # xs) c =
     (let r = rfind_from (i + 1) xs c in if r \<noteq> -1 then r else if x = c then i else -1)"

definition rfind :: "string \<Rightarrow> char \<Rightarrow> int" where
  "rfind p c = rfind_from 0 p c"

definition splitext :: "string \<Rightarrow> string \<times> string" where
  "splitext p =
     (let sepIndex = rfind p CHR ''/'';
          dotIndex = rfind p CHR ''.''
      in if dotIndex > sepIndex \<and>
            list_ex (\<lambda>c. c \<noteq> CHR ''.'') (take (nat (dotIndex - (sepIndex + 1))) (drop (nat (sepIndex + 1)) p))
         then (take (nat dotIndex) p, drop (nat dotIndex) p)
         else (p, []))"

text \<open>
  The candidate \<^verbatim>\<open>f"{base}_{counter}{ext}"\<close>, and the names that exist in a folder.
\<close>

definition numbered :: "string \<Rightarrow> string \<Rightarrow> nat \<Rightarrow> string" where
  "numbered base ext counter = base @ ''_'' @ str_nat counter @ ext"

definition entries :: "fs \<Rightarrow> string \<Rightarrow> string set" where
  "entries fs folder = {n. path_exists fs (path_join folder n)}"

text \<open>
  The loop of \<^verbatim>\<open>unique_filename\<close>. It runs for as long as the candidate exists, so it is
  a partial function: \<open>None\<close> is the loop that never ends. It returns the counter with
  the candidate; the body has run \<open>counter - 1\<close> times when the loop ends.
\<close>

partial_function (option) unique_loop ::
  "fs \<Rightarrow> string \<Rightarrow> string \<Rightarrow> string \<Rightarrow> nat \<Rightarrow> string \<Rightarrow> (nat \<times> string) option" where
  "unique_loop fs folder base ext counter candidate =
     (if path_exists fs (path_join folder candidate)
      then unique_loop fs folder base ext (counter + 1) (numbered base ext counter)
      else Some (counter, candidate))"

definition unique_filename :: "fs \<Rightarrow> string \<Rightarrow> string \<Rightarrow> string option" where
  "unique_filename fs folder n =
     (let (base, ext) = splitext n
      in map_option snd (unique_loop fs folder base ext 1 (base @ ext)))"

text \<open>
  The file-saving lines of the form handler (lines 134 to 138): the name is chosen and
  the file is written under it. \<open>stores\<close> runs them \<open>k\<close> times with the same requested
  name and returns the names in the order they were chosen.
\<close>

definition store :: "fs \<Rightarrow> string \<Rightarrow> string \<Rightarrow> string \<Rightarrow> (string \<times> fs) option" where
  "store fs folder n buffer =
     (case unique_filename fs folder n of
        None \<Rightarrow> None
      | Some safe_name \<Rightarrow> Some (safe_name, fs(path_join folder safe_name \<mapsto> buffer)))"

primrec stores :: "nat \<Rightarrow> fs \<Rightarrow> string \<Rightarrow> string \<Rightarrow> string \<Rightarrow> (string list \<times> fs) option" where
  "stores 0 fs folder n buffer = Some ([], fs)"
| "stores (Suc k) fs folder n buffer =
     (case store fs folder n buffer of
        None \<Rightarrow> None
      | Some (safe_name, fs1) \<Rightarrow>
          (case stores k fs1 folder n buffer of
             None \<Rightarrow> None
           | Some (names, fs2) \<Rightarrow> Some (safe_name # names, fs2)))"

subsection \<open>Adding a resource\<close>

text \<open>
  The three objects of \<^verbatim>\<open>add_resource\<close> are references into the manifest, and
  \<^verbatim>\<open>subject_obj["resources"].append(resource)\<close> mutates the manifest through them; the
  model writes each changed node back at its position. The function returns the manifest
  in memory and the file system after \<^verbatim>\<open>save_manifest\<close>.
\<close>

definition add_resource ::
  "(manifest \<Rightarrow> string) \<Rightarrow> manifest \<Rightarrow> string \<Rightarrow> string \<Rightarrow> string \<Rightarrow> resource \<Rightarrow> fs \<Rightarrow> manifest \<times> fs" where
  "add_resource json_dump m year_name branch_name subject_name res fs =
     (let (m1, yi) = find_or_create_year m year_name;
          (year_obj, bi) = find_or_create_branch (years m1 ! yi) branch_name;
          (branch_obj, si) = find_or_create_subject (branches year_obj ! bi) subject_name;
          subject_obj = subjects branch_obj ! si;
          subject_obj' = subject_obj\<lparr>resources := resources subject_obj @ [res]\<rparr>;
          branch_obj' = branch_obj\<lparr>subjects := (subjects branch_obj)[si := subject_obj']\<rparr>;
          year_obj' = year_obj\<lparr>branches := (branches year_obj)[bi := branch_obj']\<rparr>;
          m' = m1\<lparr>years := (years m1)[yi := year_obj']\<rparr>
      in (m', save_manifest json_dump m' fs))"

subsection \<open>Flatten\<close>

text \<open>
  One record for each resource, in the order of the four nested loops. The lists that the
  code reads with \<^verbatim>\<open>.get(key, [])\<close> are fields of the records here, so they are always
  there.
\<close>

record flat =
  year :: string
  branch :: string
  subject :: string
  ftitle :: string
  ftype :: string
  furl :: "string option"
  fpath :: "string option"

definition flatten_subject :: "string \<Rightarrow> string \<Rightarrow> subject \<Rightarrow> flat list" where
  "flatten_subject yn bn s =
     map (\<lambda>res. \<lparr>year = yn, branch = bn, subject = sname s, ftitle = title res,
                  ftype = rtype res, furl = url res, fpath = path res\<rparr>) (resources s)"

definition flatten_branch :: "string \<Rightarrow> branch \<Rightarrow> flat list" where
  "flatten_branch yn b = concat (map (flatten_subject yn (bname b)) (subjects b))"

definition flatten_year :: "year \<Rightarrow> flat list" where
  "flatten_year y = concat (map (flatten_branch (yname y)) (branches y))"

definition flatten_resources :: "manifest \<Rightarrow> flat list" where
  "flatten_resources m = concat (map flatten_year (years m))"

subsection \<open>Search\<close>








definition is_ascii :: "string \<Rightarrow> bool" where
  "is_ascii s = list_all (\<lambda>c. (of_char c :: nat) < 128) s"








subsection \<open>The form that adds a resource\<close>

text \<open>
  One submission of the form (lines 111 to 148). \<open>res_type\<close> is the value of the select
  box, whose options are \<open>res_type_options\<close>. The URL field is shown for the type
  \<^verbatim>\<open>"link"\<close> only and the file uploader for the other type only: \<open>url_input\<close> and
  \<open>file_input\<close> are what the user entered in the one that is shown. \<open>now\<close> is the text
  of \<^verbatim>\<open>datetime.datetime.utcnow()\<close>.
\<close>

record uploaded =
  upload_name :: string
  upload_buffer :: string

record form =
  year_name :: string
  branch_name :: string
  subject_name :: string
  form_title :: string
  res_type :: string
  url_input :: string
  file_input :: "uploaded option"

definition res_type_options :: "string list" where
  "res_type_options = [''link'', ''upload_file'']"

datatype notice = Error_required_fields | Error_link_url | Success_added

definition submit ::
  "(manifest \<Rightarrow> string) \<Rightarrow> string \<Rightarrow> form \<Rightarrow> manifest \<Rightarrow> fs \<Rightarrow> (exn + notice \<times> manifest \<times> fs) option" where
  "submit json_dump now f m fs =
     (let url_text = (if res_type f = ''link'' then url_input f else []);
          uploaded_file = (if res_type f = ''link'' then None else file_input f)
      in if \<not> (year_name f \<noteq> [] \<and> branch_name f \<noteq> [] \<and> subject_name f \<noteq> [] \<and> form_title f \<noteq> [])
         then Some (Inr (Error_required_fields, m, fs))
         else if res_type f = ''link'' \<and> url_text = []
         then Some (Inr (Error_link_url, m, fs))
         else
           let fs1 = ensure_dirs json_dump fs
           in if res_type f = ''file''
              then (case uploaded_file of
                      None \<Rightarrow> Some (Inl AttributeError)
                    | Some up \<Rightarrow>
                        (case store fs1 STATIC_DIR (upload_name up) (upload_buffer up) of
                           None \<Rightarrow> None
                         | Some (safe_name, fs2) \<Rightarrow>
                             let res = \<lparr>title = form_title f, rtype = ''file'', url = None,
                                        path = Some (STATIC_DIR @ ''/'' @ safe_name),
                                        meta = [(''added'', now)]\<rparr>;
                                 (m', fs3) = add_resource json_dump m (strip (year_name f))
                                               (strip (branch_name f)) (strip (subject_name f)) res fs2
                             in Some (Inr (Success_added, m', fs3))))
              else
                let res = \<lparr>title = form_title f, rtype = ''link'', url = Some url_text,
                           path = None, meta = [(''added'', now)]\<rparr>;
                    (m', fs3) = add_resource json_dump m (strip (year_name f))
                                  (strip (branch_name f)) (strip (subject_name f)) res fs1
                in Some (Inr (Success_added, m', fs3)))"

subsection \<open>The delete buttons\<close>

text \<open>
  A delete button belongs to the node the browse loop is at when it draws the button:
  the handlers take the positions of that node in the lists of the tree, and there is no
  button (\<open>None\<close>) at a position outside them. \<^verbatim>\<open>list.remove\<close> removes the first element
  equal to its argument.
\<close>

definition nth_opt :: "'a list \<Rightarrow> nat \<Rightarrow> 'a option" where
  "nth_opt xs i = (if i < length xs then Some (xs ! i) else None)"

definition delete_year ::
  "(manifest \<Rightarrow> string) \<Rightarrow> nat \<Rightarrow> manifest \<Rightarrow> fs \<Rightarrow> (manifest \<times> fs) option" where
  "delete_year json_dump yi m fs =
     (case nth_opt (years m) yi of
        None \<Rightarrow> None
      | Some y \<Rightarrow>
          let m' = m\<lparr>years := remove1 y (years m)\<rparr>
          in Some (m', save_manifest json_dump m' fs))"

text \<open>Lines 240 and 241: the backing file of a resource that is deleted.\<close>

definition remove_backing_file :: "resource \<Rightarrow> fs \<Rightarrow> exn + fs" where
  "remove_backing_file res fs =
     (if rtype res = ''file'' \<and> path_exists fs (case path res of None \<Rightarrow> [] | Some p \<Rightarrow> p)
      then (case path res of None \<Rightarrow> Inl KeyError | Some p \<Rightarrow> Inr (os_remove fs p))
      else Inr fs)"

text \<open>Line 242, written back through the references the loop holds.\<close>

definition remove_resource :: "nat \<Rightarrow> nat \<Rightarrow> nat \<Rightarrow> resource \<Rightarrow> manifest \<Rightarrow> manifest" where
  "remove_resource yi bi si res m =
     (let y = years m ! yi;
          b = branches y ! bi;
          s = subjects b ! si;
          s' = s\<lparr>resources := remove1 res (resources s)\<rparr>;
          b' = b\<lparr>subjects := (subjects b)[si := s']\<rparr>;
          y' = y\<lparr>branches := (branches y)[bi := b']\<rparr>
      in m\<lparr>years := (years m)[yi := y']\<rparr>)"

definition delete_resource ::
  "(manifest \<Rightarrow> string) \<Rightarrow> nat \<Rightarrow> nat \<Rightarrow> nat \<Rightarrow> nat \<Rightarrow> manifest \<Rightarrow> fs \<Rightarrow>
   (exn + manifest \<times> fs) option" where
  "delete_resource json_dump yi bi si ri m fs =
     (case nth_opt (years m) yi of
        None \<Rightarrow> None
      | Some y \<Rightarrow>
     (case nth_opt (branches y) bi of
        None \<Rightarrow> None
      | Some b \<Rightarrow>
     (case nth_opt (subjects b) si of
        None \<Rightarrow> None
      | Some s \<Rightarrow>
     (case nth_opt (resources s) ri of
        None \<Rightarrow> None
      | Some res \<Rightarrow>
          Some (case remove_backing_file res fs of
                  Inl e \<Rightarrow> Inl e
                | Inr fs1 \<Rightarrow>
                    let m' = remove_resource yi bi si res m
                    in Inr (m', save_manifest json_dump m' fs1))))))"

section \<open>Find or create: lemmas\<close>

lemma find_named_None: "find_named f xs n = None \<longleftrightarrow> n \<notin> f ` set xs"
  by (induction xs) auto

lemma find_named_Some:
  "find_named f xs n = Some i \<Longrightarrow> i < length xs \<and> f (xs ! i) = n"
proof (induction xs arbitrary: i)
  case Nil
  then show ?case by simp
next
  case (Cons x xs)
  show ?case
  proof (cases "f x = n")
    case True
    with Cons.prems show ?thesis by simp
  next
    case False
    with Cons.prems obtain j where j: "find_named f xs n = Some j" "i = Suc j"
      by auto
    from Cons.IH [OF j(1)] j(2) show ?thesis by simp
  qed
qed

lemma find_named_append_new:
  "n \<notin> f ` set xs \<Longrightarrow> f x = n \<Longrightarrow> find_named f (xs @ [x]) n = Some (length xs)"
  by (induction xs) auto

lemma count_named_distinct:
  "distinct (map f xs) \<Longrightarrow> n \<in> f ` set xs \<Longrightarrow> length (filter (\<lambda>x. f x = n) xs) = 1"
proof (induction xs)
  case Nil
  then show ?case by simp
next
  case (Cons x xs)
  show ?case
  proof (cases "f x = n")
    case True
    with Cons.prems have "n \<notin> f ` set xs" by auto
    then have "filter (\<lambda>x. f x = n) xs = []" by (auto simp: filter_empty_conv)
    with True show ?thesis by simp
  next
    case False
    with Cons show ?thesis by auto
  qed
qed

lemma count_named_append_new:
  "n \<notin> f ` set xs \<Longrightarrow> f x = n \<Longrightarrow> length (filter (\<lambda>x. f x = n) (xs @ [x])) = 1"
proof -
  assume "n \<notin> f ` set xs" and x: "f x = n"
  then have "\<forall>y\<in>set xs. f y \<noteq> n"
    by blast
  then have "filter (\<lambda>x. f x = n) xs = []"
    by (simp add: filter_empty_conv)
  with x show ?thesis by simp
qed

lemma find_or_create_year_existing:
  "n \<in> yname ` set (years m) \<Longrightarrow> fst (find_or_create_year m n) = m"
  by (cases "find_named yname (years m) n") (auto simp: find_or_create_year_def find_named_None)

lemma find_or_create_year_new:
  "n \<notin> yname ` set (years m) \<Longrightarrow>
   find_or_create_year m n = (m\<lparr>years := years m @ [\<lparr>yname = n, branches = []\<rparr>]\<rparr>, length (years m))"
proof -
  assume "n \<notin> yname ` set (years m)"
  then have "find_named yname (years m) n = None"
    by (simp add: find_named_None)
  then show ?thesis
    by (simp add: find_or_create_year_def)
qed

lemma find_or_create_year_index:
  "snd (find_or_create_year m n) < length (years (fst (find_or_create_year m n))) \<and>
   yname (years (fst (find_or_create_year m n)) ! snd (find_or_create_year m n)) = n"
proof (cases "find_named yname (years m) n")
  case None
  then show ?thesis by (simp add: find_or_create_year_def)
next
  case (Some i)
  from find_named_Some [OF Some] Some show ?thesis by (simp add: find_or_create_year_def)
qed

lemma find_or_create_year_again:
  "find_or_create_year (fst (find_or_create_year m n)) n = find_or_create_year m n"
proof (cases "find_named yname (years m) n")
  case None
  then have "n \<notin> yname ` set (years m)" by (simp add: find_named_None)
  then have "find_named yname (years m @ [\<lparr>yname = n, branches = []\<rparr>]) n = Some (length (years m))"
    by (rule find_named_append_new) simp
  with None show ?thesis by (simp add: find_or_create_year_def)
next
  case (Some i)
  then show ?thesis by (simp add: find_or_create_year_def)
qed

lemma year_calls_pos: "0 < k \<Longrightarrow> year_calls k n m = fst (find_or_create_year m n)"
proof (induction k)
  case 0
  then show ?case by simp
next
  case (Suc k)
  show ?case
  proof (cases "k = 0")
    case True
    then show ?thesis by (simp add: year_calls_def)
  next
    case False
    with Suc.IH have "year_calls k n m = fst (find_or_create_year m n)" by simp
    then have "year_calls (Suc k) n m = fst (find_or_create_year (fst (find_or_create_year m n)) n)"
      by (simp add: year_calls_def)
    then show ?thesis by (simp add: find_or_create_year_again)
  qed
qed

lemma find_or_create_year_count:
  assumes "distinct (map yname (years m))"
  shows "length (filter (\<lambda>x. yname x = n) (years (fst (find_or_create_year m n)))) = 1"
proof (cases "n \<in> yname ` set (years m)")
  case True
  with assms show ?thesis by (simp add: find_or_create_year_existing count_named_distinct)
next
  case False
  have "length (filter (\<lambda>x. yname x = n) (years m @ [\<lparr>yname = n, branches = []\<rparr>])) = 1"
    by (rule count_named_append_new [OF False]) simp
  with False show ?thesis by (simp add: find_or_create_year_new del: filter_append)
qed

lemma find_or_create_branch_existing:
  "n \<in> bname ` set (branches y) \<Longrightarrow> fst (find_or_create_branch y n) = y"
  by (cases "find_named bname (branches y) n") (auto simp: find_or_create_branch_def find_named_None)

lemma find_or_create_branch_new:
  "n \<notin> bname ` set (branches y) \<Longrightarrow>
   find_or_create_branch y n = (y\<lparr>branches := branches y @ [\<lparr>bname = n, subjects = []\<rparr>]\<rparr>, length (branches y))"
proof -
  assume "n \<notin> bname ` set (branches y)"
  then have "find_named bname (branches y) n = None"
    by (simp add: find_named_None)
  then show ?thesis
    by (simp add: find_or_create_branch_def)
qed

lemma find_or_create_branch_index:
  "snd (find_or_create_branch y n) < length (branches (fst (find_or_create_branch y n))) \<and>
   bname (branches (fst (find_or_create_branch y n)) ! snd (find_or_create_branch y n)) = n"
proof (cases "find_named bname (branches y) n")
  case None
  then show ?thesis by (simp add: find_or_create_branch_def)
next
  case (Some i)
  from find_named_Some [OF Some] Some show ?thesis by (simp add: find_or_create_branch_def)
qed

lemma find_or_create_branch_again:
  "find_or_create_branch (fst (find_or_create_branch y n)) n = find_or_create_branch y n"
proof (cases "find_named bname (branches y) n")
  case None
  then have "n \<notin> bname ` set (branches y)" by (simp add: find_named_None)
  then have "find_named bname (branches y @ [\<lparr>bname = n, subjects = []\<rparr>]) n = Some (length (branches y))"
    by (rule find_named_append_new) simp
  with None show ?thesis by (simp add: find_or_create_branch_def)
next
  case (Some i)
  then show ?thesis by (simp add: find_or_create_branch_def)
qed

lemma branch_calls_pos: "0 < k \<Longrightarrow> branch_calls k n y = fst (find_or_create_branch y n)"
proof (induction k)
  case 0
  then show ?case by simp
next
  case (Suc k)
  show ?case
  proof (cases "k = 0")
    case True
    then show ?thesis by (simp add: branch_calls_def)
  next
    case False
    with Suc.IH have "branch_calls k n y = fst (find_or_create_branch y n)" by simp
    then have "branch_calls (Suc k) n y = fst (find_or_create_branch (fst (find_or_create_branch y n)) n)"
      by (simp add: branch_calls_def)
    then show ?thesis by (simp add: find_or_create_branch_again)
  qed
qed

lemma find_or_create_branch_count:
  assumes "distinct (map bname (branches y))"
  shows "length (filter (\<lambda>x. bname x = n) (branches (fst (find_or_create_branch y n)))) = 1"
proof (cases "n \<in> bname ` set (branches y)")
  case True
  with assms show ?thesis by (simp add: find_or_create_branch_existing count_named_distinct)
next
  case False
  have "length (filter (\<lambda>x. bname x = n) (branches y @ [\<lparr>bname = n, subjects = []\<rparr>])) = 1"
    by (rule count_named_append_new [OF False]) simp
  with False show ?thesis by (simp add: find_or_create_branch_new del: filter_append)
qed

lemma find_or_create_subject_existing:
  "n \<in> sname ` set (subjects b) \<Longrightarrow> fst (find_or_create_subject b n) = b"
  by (cases "find_named sname (subjects b) n") (auto simp: find_or_create_subject_def find_named_None)

lemma find_or_create_subject_new:
  "n \<notin> sname ` set (subjects b) \<Longrightarrow>
   find_or_create_subject b n = (b\<lparr>subjects := subjects b @ [\<lparr>sname = n, resources = []\<rparr>]\<rparr>, length (subjects b))"
proof -
  assume "n \<notin> sname ` set (subjects b)"
  then have "find_named sname (subjects b) n = None"
    by (simp add: find_named_None)
  then show ?thesis
    by (simp add: find_or_create_subject_def)
qed

lemma find_or_create_subject_index:
  "snd (find_or_create_subject b n) < length (subjects (fst (find_or_create_subject b n))) \<and>
   sname (subjects (fst (find_or_create_subject b n)) ! snd (find_or_create_subject b n)) = n"
proof (cases "find_named sname (subjects b) n")
  case None
  then show ?thesis by (simp add: find_or_create_subject_def)
next
  case (Some i)
  from find_named_Some [OF Some] Some show ?thesis by (simp add: find_or_create_subject_def)
qed

lemma find_or_create_subject_again:
  "find_or_create_subject (fst (find_or_create_subject b n)) n = find_or_create_subject b n"
proof (cases "find_named sname (subjects b) n")
  case None
  then have "n \<notin> sname ` set (subjects b)" by (simp add: find_named_None)
  then have "find_named sname (subjects b @ [\<lparr>sname = n, resources = []\<rparr>]) n = Some (length (subjects b))"
    by (rule find_named_append_new) simp
  with None show ?thesis by (simp add: find_or_create_subject_def)
next
  case (Some i)
  then show ?thesis by (simp add: find_or_create_subject_def)
qed

lemma subject_calls_pos: "0 < k \<Longrightarrow> subject_calls k n b = fst (find_or_create_subject b n)"
proof (induction k)
  case 0
  then show ?case by simp
next
  case (Suc k)
  show ?case
  proof (cases "k = 0")
    case True
    then show ?thesis by (simp add: subject_calls_def)
  next
    case False
    with Suc.IH have "subject_calls k n b = fst (find_or_create_subject b n)" by simp
    then have "subject_calls (Suc k) n b = fst (find_or_create_subject (fst (find_or_create_subject b n)) n)"
      by (simp add: subject_calls_def)
    then show ?thesis by (simp add: find_or_create_subject_again)
  qed
qed

lemma find_or_create_subject_count:
  assumes "distinct (map sname (subjects b))"
  shows "length (filter (\<lambda>x. sname x = n) (subjects (fst (find_or_create_subject b n)))) = 1"
proof (cases "n \<in> sname ` set (subjects b)")
  case True
  with assms show ?thesis by (simp add: find_or_create_subject_existing count_named_distinct)
next
  case False
  have "length (filter (\<lambda>x. sname x = n) (subjects b @ [\<lparr>sname = n, resources = []\<rparr>])) = 1"
    by (rule count_named_append_new [OF False]) simp
  with False show ?thesis by (simp add: find_or_create_subject_new del: filter_append)
qed

section \<open>Idempotent creation\<close>

text \<open>
  Claim C1. Take a manifest, a year and a branch whose children have pairwise different
  names, and call \<open>find_or_create_year\<close>, \<open>find_or_create_branch\<close> or
  \<open>find_or_create_subject\<close> on it \<open>k\<close> times (\<open>k > 0\<close>) with the same name \<open>n\<close>. Then, at
  each of the three levels: the parent has exactly one child named \<open>n\<close>; the parent is
  what the first call made of it, which is the parent itself when it had a child named
  \<open>n\<close>, and the parent with one new empty child named \<open>n\<close> appended otherwise; and one
  more call returns the parent as it is (nothing is appended) with the same node as the
  first call, which is a child of the parent and is named \<open>n\<close>.
\<close>

theorem find_or_create_idempotent:
  assumes "0 < k"
    and "distinct (map yname (years m))"
    and "distinct (map bname (branches y))"
    and "distinct (map sname (subjects b))"
  shows "(length (filter (\<lambda>x. yname x = n) (years (year_calls k n m))) = 1
          \<and> year_calls k n m =
              (if n \<in> yname ` set (years m) then m
               else m\<lparr>years := years m @ [\<lparr>yname = n, branches = []\<rparr>]\<rparr>)
          \<and> find_or_create_year (year_calls k n m) n
              = (year_calls k n m, snd (find_or_create_year m n))
          \<and> snd (find_or_create_year m n) < length (years (year_calls k n m))
          \<and> yname (years (year_calls k n m) ! snd (find_or_create_year m n)) = n)
       \<and> (length (filter (\<lambda>x. bname x = n) (branches (branch_calls k n y))) = 1
          \<and> branch_calls k n y =
              (if n \<in> bname ` set (branches y) then y
               else y\<lparr>branches := branches y @ [\<lparr>bname = n, subjects = []\<rparr>]\<rparr>)
          \<and> find_or_create_branch (branch_calls k n y) n
              = (branch_calls k n y, snd (find_or_create_branch y n))
          \<and> snd (find_or_create_branch y n) < length (branches (branch_calls k n y))
          \<and> bname (branches (branch_calls k n y) ! snd (find_or_create_branch y n)) = n)
       \<and> (length (filter (\<lambda>x. sname x = n) (subjects (subject_calls k n b))) = 1
          \<and> subject_calls k n b =
              (if n \<in> sname ` set (subjects b) then b
               else b\<lparr>subjects := subjects b @ [\<lparr>sname = n, resources = []\<rparr>]\<rparr>)
          \<and> find_or_create_subject (subject_calls k n b) n
              = (subject_calls k n b, snd (find_or_create_subject b n))
          \<and> snd (find_or_create_subject b n) < length (subjects (subject_calls k n b))
          \<and> sname (subjects (subject_calls k n b) ! snd (find_or_create_subject b n)) = n)"
proof -
  have ky: "year_calls k n m = fst (find_or_create_year m n)"
    using assms(1) by (rule year_calls_pos)
  have kb: "branch_calls k n y = fst (find_or_create_branch y n)"
    using assms(1) by (rule branch_calls_pos)
  have ks: "subject_calls k n b = fst (find_or_create_subject b n)"
    using assms(1) by (rule subject_calls_pos)
  have y1: "length (filter (\<lambda>x. yname x = n) (years (year_calls k n m))) = 1"
    unfolding ky using assms(2) by (rule find_or_create_year_count)
  have y2: "year_calls k n m =
              (if n \<in> yname ` set (years m) then m
               else m\<lparr>years := years m @ [\<lparr>yname = n, branches = []\<rparr>]\<rparr>)"
    unfolding ky by (simp add: find_or_create_year_existing find_or_create_year_new)
  have y3: "find_or_create_year (year_calls k n m) n
              = (year_calls k n m, snd (find_or_create_year m n))"
    unfolding ky by (simp add: find_or_create_year_again)
  have y4: "snd (find_or_create_year m n) < length (years (year_calls k n m))
          \<and> yname (years (year_calls k n m) ! snd (find_or_create_year m n)) = n"
    unfolding ky by (rule find_or_create_year_index)
  have b1: "length (filter (\<lambda>x. bname x = n) (branches (branch_calls k n y))) = 1"
    unfolding kb using assms(3) by (rule find_or_create_branch_count)
  have b2: "branch_calls k n y =
              (if n \<in> bname ` set (branches y) then y
               else y\<lparr>branches := branches y @ [\<lparr>bname = n, subjects = []\<rparr>]\<rparr>)"
    unfolding kb by (simp add: find_or_create_branch_existing find_or_create_branch_new)
  have b3: "find_or_create_branch (branch_calls k n y) n
              = (branch_calls k n y, snd (find_or_create_branch y n))"
    unfolding kb by (simp add: find_or_create_branch_again)
  have b4: "snd (find_or_create_branch y n) < length (branches (branch_calls k n y))
          \<and> bname (branches (branch_calls k n y) ! snd (find_or_create_branch y n)) = n"
    unfolding kb by (rule find_or_create_branch_index)
  have s1: "length (filter (\<lambda>x. sname x = n) (subjects (subject_calls k n b))) = 1"
    unfolding ks using assms(4) by (rule find_or_create_subject_count)
  have s2: "subject_calls k n b =
              (if n \<in> sname ` set (subjects b) then b
               else b\<lparr>subjects := subjects b @ [\<lparr>sname = n, resources = []\<rparr>]\<rparr>)"
    unfolding ks by (simp add: find_or_create_subject_existing find_or_create_subject_new)
  have s3: "find_or_create_subject (subject_calls k n b) n
              = (subject_calls k n b, snd (find_or_create_subject b n))"
    unfolding ks by (simp add: find_or_create_subject_again)
  have s4: "snd (find_or_create_subject b n) < length (subjects (subject_calls k n b))
          \<and> sname (subjects (subject_calls k n b) ! snd (find_or_create_subject b n)) = n"
    unfolding ks by (rule find_or_create_subject_index)
  from y1 y2 y3 y4 b1 b2 b3 b4 s1 s2 s3 s4 show ?thesis by blast
qed

theorem find_or_create_idempotent_witness:
  "0 < (2::nat)
   \<and> distinct (map yname (years \<lparr>years = [\<lparr>yname = ''1st Year'', branches = []\<rparr>]\<rparr>))
   \<and> distinct (map bname (branches \<lparr>yname = ''2nd Year'', branches = [\<lparr>bname = ''ECE'', subjects = []\<rparr>]\<rparr>))
   \<and> distinct (map sname (subjects \<lparr>bname = ''ECE'', subjects = []\<rparr>))
   \<and> year_calls 2 ''ECE'' \<lparr>years = [\<lparr>yname = ''1st Year'', branches = []\<rparr>]\<rparr>
       = \<lparr>years = [\<lparr>yname = ''1st Year'', branches = []\<rparr>, \<lparr>yname = ''ECE'', branches = []\<rparr>]\<rparr>
   \<and> branch_calls 2 ''ECE'' \<lparr>yname = ''2nd Year'', branches = [\<lparr>bname = ''ECE'', subjects = []\<rparr>]\<rparr>
       = \<lparr>yname = ''2nd Year'', branches = [\<lparr>bname = ''ECE'', subjects = []\<rparr>]\<rparr>
   \<and> subject_calls 2 ''ECE'' \<lparr>bname = ''ECE'', subjects = []\<rparr>
       = \<lparr>bname = ''ECE'', subjects = [\<lparr>sname = ''ECE'', resources = []\<rparr>]\<rparr>"
proof -
  have h1: "0 < (2::nat)" by simp
  have h2: "distinct (map yname (years \<lparr>years = [\<lparr>yname = ''1st Year'', branches = []\<rparr>]\<rparr>))"
    by simp
  have h3: "distinct (map bname (branches \<lparr>yname = ''2nd Year'', branches = [\<lparr>bname = ''ECE'', subjects = []\<rparr>]\<rparr>))"
    by simp
  have h4: "distinct (map sname (subjects \<lparr>bname = ''ECE'', subjects = []\<rparr>))"
    by simp
  from find_or_create_idempotent [OF h1 h2 h3 h4, of "''ECE''"] show ?thesis
    by simp
qed

section \<open>Adding a resource\<close>

lemma find_or_create_year_cases:
  "years (fst (find_or_create_year m n)) = years m \<or>
   years (fst (find_or_create_year m n)) = years m @ [\<lparr>yname = n, branches = []\<rparr>]"
  by (cases "n \<in> yname ` set (years m)")
     (simp_all add: find_or_create_year_existing find_or_create_year_new)

lemma find_or_create_branch_cases:
  "branches (fst (find_or_create_branch y n)) = branches y \<or>
   branches (fst (find_or_create_branch y n)) = branches y @ [\<lparr>bname = n, subjects = []\<rparr>]"
  by (cases "n \<in> bname ` set (branches y)")
     (simp_all add: find_or_create_branch_existing find_or_create_branch_new)

lemma find_or_create_subject_cases:
  "subjects (fst (find_or_create_subject b n)) = subjects b \<or>
   subjects (fst (find_or_create_subject b n)) = subjects b @ [\<lparr>sname = n, resources = []\<rparr>]"
  by (cases "n \<in> sname ` set (subjects b)")
     (simp_all add: find_or_create_subject_existing find_or_create_subject_new)

lemma find_or_create_branch_yname: "yname (fst (find_or_create_branch y n)) = yname y"
  by (cases "n \<in> bname ` set (branches y)")
     (simp_all add: find_or_create_branch_existing find_or_create_branch_new)

lemma find_or_create_subject_bname: "bname (fst (find_or_create_subject b n)) = bname b"
  by (cases "n \<in> sname ` set (subjects b)")
     (simp_all add: find_or_create_subject_existing find_or_create_subject_new)

lemma find_or_create_year_flatten:
  "flatten_resources (fst (find_or_create_year m n)) = flatten_resources m"
  using find_or_create_year_cases [of m n]
  by (auto simp: flatten_resources_def flatten_year_def)

lemma find_or_create_branch_flatten:
  "flatten_year (fst (find_or_create_branch y n)) = flatten_year y"
  using find_or_create_branch_cases [of y n]
  by (auto simp: flatten_year_def flatten_branch_def find_or_create_branch_yname)

lemma find_or_create_subject_flatten:
  "flatten_branch yn (fst (find_or_create_subject b n)) = flatten_branch yn b"
  using find_or_create_subject_cases [of b n]
  by (auto simp: flatten_branch_def flatten_subject_def find_or_create_subject_bname)

lemma concat_map_update_insert:
  assumes "i < length xs" and "f (xs ! i) = A @ B" and "f x' = A @ [r] @ B"
  shows "\<exists>P Q. concat (map f xs) = P @ Q \<and> concat (map f (xs[i := x'])) = P @ [r] @ Q"
proof -
  let ?P = "concat (map f (take i xs)) @ A"
  let ?Q = "B @ concat (map f (drop (Suc i) xs))"
  have "xs = take i xs @ xs ! i # drop (Suc i) xs"
    using assms(1) by (rule id_take_nth_drop)
  then have "concat (map f xs) = concat (map f (take i xs @ xs ! i # drop (Suc i) xs))"
    by simp
  then have 1: "concat (map f xs) = ?P @ ?Q"
    using assms(2) by simp
  have "xs[i := x'] = take i xs @ x' # drop (Suc i) xs"
    using assms(1) by (rule upd_conv_take_nth_drop)
  then have 2: "concat (map f (xs[i := x'])) = ?P @ [r] @ ?Q"
    using assms(3) by simp
  from 1 2 show ?thesis by blast
qed


lemma add_resource_unfold:
  assumes "find_or_create_year m yn = (m1, yi)"
    and "find_or_create_branch (years m1 ! yi) bn = (y1, bi)"
    and "find_or_create_subject (branches y1 ! bi) sn = (b1, si)"
  shows "add_resource json_dump m yn bn sn r fs =
     (let m' = m1\<lparr>years := (years m1)[yi := y1\<lparr>branches := (branches y1)[bi :=
                  b1\<lparr>subjects := (subjects b1)[si :=
                    (subjects b1 ! si)\<lparr>resources := resources (subjects b1 ! si) @ [r]\<rparr>]\<rparr>]\<rparr>]\<rparr>
      in (m', save_manifest json_dump m' fs))"
  by (simp add: add_resource_def assms Let_def)

lemma add_resource_bounds:
  assumes fy: "find_or_create_year m yn = (m1, yi)"
    and fb: "find_or_create_branch (years m1 ! yi) bn = (y1, bi)"
    and fsub: "find_or_create_subject (branches y1 ! bi) sn = (b1, si)"
  shows "yi < length (years m1) \<and> yname (years m1 ! yi) = yn \<and> yname y1 = yn
       \<and> bi < length (branches y1) \<and> bname (branches y1 ! bi) = bn \<and> bname b1 = bn
       \<and> si < length (subjects b1) \<and> sname (subjects b1 ! si) = sn"
proof -
  from find_or_create_year_index [of m yn] fy
  have 1: "yi < length (years m1) \<and> yname (years m1 ! yi) = yn" by simp
  from find_or_create_branch_index [of "years m1 ! yi" bn] fb
  have 2: "bi < length (branches y1) \<and> bname (branches y1 ! bi) = bn" by simp
  from find_or_create_branch_yname [of "years m1 ! yi" bn] fb 1
  have 3: "yname y1 = yn" by simp
  from find_or_create_subject_index [of "branches y1 ! bi" sn] fsub
  have 4: "si < length (subjects b1) \<and> sname (subjects b1 ! si) = sn" by simp
  from find_or_create_subject_bname [of "branches y1 ! bi" sn] fsub 2
  have 5: "bname b1 = bn" by simp
  from 1 2 3 4 5 show ?thesis by blast
qed

text \<open>
  Claim C3. Adding the resource with title \<^verbatim>\<open>"Signals Notes"\<close>, type \<^verbatim>\<open>"link"\<close> and URL
  \<^verbatim>\<open>"http://x"\<close> under \<^verbatim>\<open>("2nd Year", "ECE", "Signals")\<close> to the empty manifest gives the
  manifest with the one year \<^verbatim>\<open>"2nd Year"\<close>, its one branch \<^verbatim>\<open>"ECE"\<close>, its one subject
  \<^verbatim>\<open>"Signals"\<close> and its one resource, the one added. In general, when the three
  find-or-create calls that \<open>add_resource\<close> chains return the nodes at positions \<open>yi\<close>,
  \<open>bi\<close> and \<open>si\<close>, the manifest it returns has at these positions a year, a branch
  and a subject with the three names given, and the resources of that subject are the
  resources of the subject the third call returned followed by the new resource; the
  file system it returns is the one \<open>save_manifest\<close> makes with that manifest.
\<close>

theorem add_resource_composes:
  assumes fy: "find_or_create_year m yn = (m1, yi)"
    and fb: "find_or_create_branch (years m1 ! yi) bn = (y1, bi)"
    and fsub: "find_or_create_subject (branches y1 ! bi) sn = (b1, si)"
    and ar: "add_resource json_dump m yn bn sn r fs = (m', fs')"
  shows "fst (add_resource json_dump \<lparr>years = []\<rparr> ''2nd Year'' ''ECE'' ''Signals''
                \<lparr>title = ''Signals Notes'', rtype = ''link'', url = Some ''http://x'',
                 path = None, meta = []\<rparr> fs)
           = \<lparr>years = [\<lparr>yname = ''2nd Year'', branches = [\<lparr>bname = ''ECE'', subjects =
                [\<lparr>sname = ''Signals'', resources =
                   [\<lparr>title = ''Signals Notes'', rtype = ''link'', url = Some ''http://x'',
                     path = None, meta = []\<rparr>]\<rparr>]\<rparr>]\<rparr>]\<rparr>
       \<and> yi < length (years m') \<and> yname (years m' ! yi) = yn
       \<and> bi < length (branches (years m' ! yi)) \<and> bname (branches (years m' ! yi) ! bi) = bn
       \<and> si < length (subjects (branches (years m' ! yi) ! bi))
       \<and> sname (subjects (branches (years m' ! yi) ! bi) ! si) = sn
       \<and> resources (subjects (branches (years m' ! yi) ! bi) ! si)
           = resources (subjects b1 ! si) @ [r]
       \<and> fs' = save_manifest json_dump m' fs"
proof -
  have scen: "fst (add_resource json_dump \<lparr>years = []\<rparr> ''2nd Year'' ''ECE'' ''Signals''
                \<lparr>title = ''Signals Notes'', rtype = ''link'', url = Some ''http://x'',
                 path = None, meta = []\<rparr> fs)
           = \<lparr>years = [\<lparr>yname = ''2nd Year'', branches = [\<lparr>bname = ''ECE'', subjects =
                [\<lparr>sname = ''Signals'', resources =
                   [\<lparr>title = ''Signals Notes'', rtype = ''link'', url = Some ''http://x'',
                     path = None, meta = []\<rparr>]\<rparr>]\<rparr>]\<rparr>]\<rparr>"
    by (simp add: add_resource_def find_or_create_year_def find_or_create_branch_def
        find_or_create_subject_def Let_def)
  note b = add_resource_bounds [OF fy fb fsub]
  from ar add_resource_unfold [OF fy fb fsub, of json_dump r fs]
  have m': "m' = m1\<lparr>years := (years m1)[yi := y1\<lparr>branches := (branches y1)[bi :=
                  b1\<lparr>subjects := (subjects b1)[si :=
                    (subjects b1 ! si)\<lparr>resources := resources (subjects b1 ! si) @ [r]\<rparr>]\<rparr>]\<rparr>]\<rparr>"
    and fs': "fs' = save_manifest json_dump m' fs"
    by (auto simp: Let_def)
  from b have gen: "yi < length (years m') \<and> yname (years m' ! yi) = yn
       \<and> bi < length (branches (years m' ! yi)) \<and> bname (branches (years m' ! yi) ! bi) = bn
       \<and> si < length (subjects (branches (years m' ! yi) ! bi))
       \<and> sname (subjects (branches (years m' ! yi) ! bi) ! si) = sn
       \<and> resources (subjects (branches (years m' ! yi) ! bi) ! si)
           = resources (subjects b1 ! si) @ [r]"
    unfolding m' by simp
  from scen gen fs' show ?thesis by blast
qed

theorem add_resource_composes_witness:
  "\<forall>json_dump fs.
     find_or_create_year \<lparr>years = []\<rparr> ''2nd Year''
       = (\<lparr>years = [\<lparr>yname = ''2nd Year'', branches = []\<rparr>]\<rparr>, 0)
   \<and> find_or_create_branch \<lparr>yname = ''2nd Year'', branches = []\<rparr> ''ECE''
       = (\<lparr>yname = ''2nd Year'', branches = [\<lparr>bname = ''ECE'', subjects = []\<rparr>]\<rparr>, 0)
   \<and> find_or_create_subject \<lparr>bname = ''ECE'', subjects = []\<rparr> ''Signals''
       = (\<lparr>bname = ''ECE'', subjects = [\<lparr>sname = ''Signals'', resources = []\<rparr>]\<rparr>, 0)
   \<and> resources (subjects (branches (years (fst (add_resource json_dump \<lparr>years = []\<rparr>
          ''2nd Year'' ''ECE'' ''Signals''
          \<lparr>title = ''Signals Notes'', rtype = ''link'', url = Some ''http://x'',
           path = None, meta = []\<rparr> fs)) ! 0) ! 0) ! 0)
       = [\<lparr>title = ''Signals Notes'', rtype = ''link'', url = Some ''http://x'',
           path = None, meta = []\<rparr>]"
proof (intro allI)
  fix json_dump :: "manifest \<Rightarrow> string" and fs :: fs
  let ?r = "\<lparr>title = ''Signals Notes'', rtype = ''link'', url = Some ''http://x'',
             path = None, meta = []\<rparr>"
  have h1: "find_or_create_year \<lparr>years = []\<rparr> ''2nd Year''
       = (\<lparr>years = [\<lparr>yname = ''2nd Year'', branches = []\<rparr>]\<rparr>, 0)"
    by (simp add: find_or_create_year_def)
  have h2: "find_or_create_branch (years \<lparr>years = [\<lparr>yname = ''2nd Year'', branches = []\<rparr>]\<rparr> ! 0) ''ECE''
       = (\<lparr>yname = ''2nd Year'', branches = [\<lparr>bname = ''ECE'', subjects = []\<rparr>]\<rparr>, 0)"
    by (simp add: find_or_create_branch_def)
  have h3: "find_or_create_subject
         (branches \<lparr>yname = ''2nd Year'', branches = [\<lparr>bname = ''ECE'', subjects = []\<rparr>]\<rparr> ! 0) ''Signals''
       = (\<lparr>bname = ''ECE'', subjects = [\<lparr>sname = ''Signals'', resources = []\<rparr>]\<rparr>, 0)"
    by (simp add: find_or_create_subject_def)
  have h4: "add_resource json_dump \<lparr>years = []\<rparr> ''2nd Year'' ''ECE'' ''Signals'' ?r fs
       = (fst (add_resource json_dump \<lparr>years = []\<rparr> ''2nd Year'' ''ECE'' ''Signals'' ?r fs),
          snd (add_resource json_dump \<lparr>years = []\<rparr> ''2nd Year'' ''ECE'' ''Signals'' ?r fs))"
    by simp
  from add_resource_composes [OF h1 h2 h3 h4] h1 h2 h3
  show "find_or_create_year \<lparr>years = []\<rparr> ''2nd Year''
       = (\<lparr>years = [\<lparr>yname = ''2nd Year'', branches = []\<rparr>]\<rparr>, 0)
   \<and> find_or_create_branch \<lparr>yname = ''2nd Year'', branches = []\<rparr> ''ECE''
       = (\<lparr>yname = ''2nd Year'', branches = [\<lparr>bname = ''ECE'', subjects = []\<rparr>]\<rparr>, 0)
   \<and> find_or_create_subject \<lparr>bname = ''ECE'', subjects = []\<rparr> ''Signals''
       = (\<lparr>bname = ''ECE'', subjects = [\<lparr>sname = ''Signals'', resources = []\<rparr>]\<rparr>, 0)
   \<and> resources (subjects (branches (years (fst (add_resource json_dump \<lparr>years = []\<rparr>
          ''2nd Year'' ''ECE'' ''Signals'' ?r fs)) ! 0) ! 0) ! 0)
       = [?r]"
    by simp
qed

text \<open>
  Claim C9. \<open>add_resource\<close> changes the tree in this way only. The list of years is the
  old one, or the old one with one new empty year appended; of its elements only the
  target year, at position \<open>yi\<close>, is replaced. In the target year the name is kept and
  the list of branches is the old one, or the old one with one new empty branch
  appended; of its elements only the target branch, at position \<open>bi\<close>, is replaced. In
  the target branch the name is kept and the list of subjects is the old one, or the old
  one with one new empty subject appended; of its elements only the target subject, at
  position \<open>si\<close>, is replaced, by itself with the new resource appended to its
  resources. So the flat list of the resources is the old one with the record of the new
  resource inserted at one place, every other record kept in its order, and it is one
  record longer.
\<close>

theorem add_resource_frame:
  assumes fy: "find_or_create_year m yn = (m1, yi)"
    and fb: "find_or_create_branch (years m1 ! yi) bn = (y1, bi)"
    and fsub: "find_or_create_subject (branches y1 ! bi) sn = (b1, si)"
    and ar: "add_resource json_dump m yn bn sn r fs = (m', fs')"
  shows "(years m1 = years m \<or> years m1 = years m @ [\<lparr>yname = yn, branches = []\<rparr>])
       \<and> yi < length (years m1)
       \<and> yname y1 = yname (years m1 ! yi)
       \<and> (branches y1 = branches (years m1 ! yi) \<or>
          branches y1 = branches (years m1 ! yi) @ [\<lparr>bname = bn, subjects = []\<rparr>])
       \<and> bi < length (branches y1)
       \<and> bname b1 = bname (branches y1 ! bi)
       \<and> (subjects b1 = subjects (branches y1 ! bi) \<or>
          subjects b1 = subjects (branches y1 ! bi) @ [\<lparr>sname = sn, resources = []\<rparr>])
       \<and> si < length (subjects b1)
       \<and> years m' = (years m1)[yi := y1\<lparr>branches := (branches y1)[bi :=
                        b1\<lparr>subjects := (subjects b1)[si :=
                          (subjects b1 ! si)\<lparr>resources := resources (subjects b1 ! si) @ [r]\<rparr>]\<rparr>]\<rparr>]
       \<and> (\<exists>pre post.
             flatten_resources m = pre @ post \<and>
             flatten_resources m' =
               pre @ [\<lparr>year = yn, branch = bn, subject = sn, ftitle = title r, ftype = rtype r,
                       furl = url r, fpath = path r\<rparr>] @ post)
       \<and> length (flatten_resources m') = length (flatten_resources m) + 1"
proof -
  note b = add_resource_bounds [OF fy fb fsub]
  let ?rec = "\<lparr>year = yn, branch = bn, subject = sn, ftitle = title r, ftype = rtype r,
                furl = url r, fpath = path r\<rparr>"
  let ?s' = "(subjects b1 ! si)\<lparr>resources := resources (subjects b1 ! si) @ [r]\<rparr>"
  let ?b' = "b1\<lparr>subjects := (subjects b1)[si := ?s']\<rparr>"
  let ?y' = "y1\<lparr>branches := (branches y1)[bi := ?b']\<rparr>"
  from ar add_resource_unfold [OF fy fb fsub, of json_dump r fs]
  have m': "m' = m1\<lparr>years := (years m1)[yi := ?y']\<rparr>"
    by (auto simp: Let_def)
  have m1: "m1 = fst (find_or_create_year m yn)"
    and y1: "y1 = fst (find_or_create_branch (years m1 ! yi) bn)"
    and b1: "b1 = fst (find_or_create_subject (branches y1 ! bi) sn)"
    using fy fb fsub by simp_all
  have c1: "years m1 = years m \<or> years m1 = years m @ [\<lparr>yname = yn, branches = []\<rparr>]"
    unfolding m1 by (rule find_or_create_year_cases)
  have c2: "branches y1 = branches (years m1 ! yi) \<or>
          branches y1 = branches (years m1 ! yi) @ [\<lparr>bname = bn, subjects = []\<rparr>]"
    unfolding y1 by (rule find_or_create_branch_cases)
  have c3: "subjects b1 = subjects (branches y1 ! bi) \<or>
          subjects b1 = subjects (branches y1 ! bi) @ [\<lparr>sname = sn, resources = []\<rparr>]"
    unfolding b1 by (rule find_or_create_subject_cases)
  have n2: "yname y1 = yname (years m1 ! yi)"
    unfolding y1 by (rule find_or_create_branch_yname)
  have n3: "bname b1 = bname (branches y1 ! bi)"
    unfolding b1 by (rule find_or_create_subject_bname)
  \<comment> \<open>the flat records, level by level\<close>
  have fl_s: "flatten_subject yn bn ?s' = flatten_subject yn bn (subjects b1 ! si) @ [?rec] @ []"
    using b by (simp add: flatten_subject_def)
  have fl_s0: "flatten_subject yn bn (subjects b1 ! si) = flatten_subject yn bn (subjects b1 ! si) @ []"
    by simp
  from concat_map_update_insert [of si "subjects b1" "flatten_subject yn bn", OF _ fl_s0 fl_s] b
  obtain P1 Q1 where pq1: "flatten_branch yn b1 = P1 @ Q1" "flatten_branch yn ?b' = P1 @ [?rec] @ Q1"
    by (auto simp: flatten_branch_def)
  have fb0: "flatten_branch yn (branches y1 ! bi) = P1 @ Q1"
    using pq1(1) find_or_create_subject_flatten [of yn "branches y1 ! bi" sn] by (simp add: b1)
  from concat_map_update_insert [of bi "branches y1" "flatten_branch yn", OF _ fb0 pq1(2)] b
  obtain P2 Q2 where pq2: "flatten_year y1 = P2 @ Q2" "flatten_year ?y' = P2 @ [?rec] @ Q2"
    by (auto simp: flatten_year_def)
  have fy0: "flatten_year (years m1 ! yi) = P2 @ Q2"
    using pq2(1) find_or_create_branch_flatten [of "years m1 ! yi" bn] by (simp add: y1)
  from concat_map_update_insert [of yi "years m1" flatten_year, OF _ fy0 pq2(2)] b
  obtain P3 Q3 where pq3: "flatten_resources m1 = P3 @ Q3" "flatten_resources m' = P3 @ [?rec] @ Q3"
    by (auto simp: flatten_resources_def m')
  have fm0: "flatten_resources m = P3 @ Q3"
    using pq3(1) find_or_create_year_flatten [of m yn] by (simp add: m1)
  from fm0 pq3(2) have ex: "\<exists>pre post.
             flatten_resources m = pre @ post \<and>
             flatten_resources m' = pre @ [?rec] @ post"
    by blast
  from fm0 pq3(2) have len: "length (flatten_resources m') = length (flatten_resources m) + 1"
    by simp
  have ys: "years m' = (years m1)[yi := ?y']"
    by (simp add: m')
  from b c1 c2 c3 n2 n3 ys ex len show ?thesis by blast
qed

theorem add_resource_frame_witness:
  "\<forall>json_dump fs.
     find_or_create_year
       \<lparr>years = [\<lparr>yname = ''2nd Year'', branches = [\<lparr>bname = ''CSE'', subjects =
          [\<lparr>sname = ''Maths'', resources =
             [\<lparr>title = ''Algebra'', rtype = ''link'', url = Some ''http://a'', path = None,
               meta = []\<rparr>]\<rparr>]\<rparr>]\<rparr>]\<rparr> ''2nd Year''
       = (\<lparr>years = [\<lparr>yname = ''2nd Year'', branches = [\<lparr>bname = ''CSE'', subjects =
          [\<lparr>sname = ''Maths'', resources =
             [\<lparr>title = ''Algebra'', rtype = ''link'', url = Some ''http://a'', path = None,
               meta = []\<rparr>]\<rparr>]\<rparr>]\<rparr>]\<rparr>, 0)
   \<and> flatten_resources (fst (add_resource json_dump
       \<lparr>years = [\<lparr>yname = ''2nd Year'', branches = [\<lparr>bname = ''CSE'', subjects =
          [\<lparr>sname = ''Maths'', resources =
             [\<lparr>title = ''Algebra'', rtype = ''link'', url = Some ''http://a'', path = None,
               meta = []\<rparr>]\<rparr>]\<rparr>]\<rparr>]\<rparr> ''2nd Year'' ''ECE'' ''Signals''
       \<lparr>title = ''Signals Notes'', rtype = ''link'', url = Some ''http://x'', path = None,
        meta = []\<rparr> fs))
     = [\<lparr>year = ''2nd Year'', branch = ''CSE'', subject = ''Maths'', ftitle = ''Algebra'',
         ftype = ''link'', furl = Some ''http://a'', fpath = None\<rparr>,
        \<lparr>year = ''2nd Year'', branch = ''ECE'', subject = ''Signals'', ftitle = ''Signals Notes'',
         ftype = ''link'', furl = Some ''http://x'', fpath = None\<rparr>]"
proof (intro allI)
  fix json_dump :: "manifest \<Rightarrow> string" and fs :: fs
  let ?old = "\<lparr>title = ''Algebra'', rtype = ''link'', url = Some ''http://a'', path = None,
              meta = []\<rparr>"
  let ?new = "\<lparr>title = ''Signals Notes'', rtype = ''link'', url = Some ''http://x'', path = None,
             meta = []\<rparr>"
  let ?cse = "\<lparr>bname = ''CSE'', subjects = [\<lparr>sname = ''Maths'', resources = [?old]\<rparr>]\<rparr>"
  let ?yold = "\<lparr>yname = ''2nd Year'', branches = [?cse]\<rparr>"
  let ?m = "\<lparr>years = [?yold]\<rparr>"
  let ?ynew = "\<lparr>yname = ''2nd Year'', branches = [?cse, \<lparr>bname = ''ECE'', subjects = []\<rparr>]\<rparr>"
  let ?ece = "\<lparr>bname = ''ECE'', subjects = [\<lparr>sname = ''Signals'', resources = []\<rparr>]\<rparr>"
  have h1: "find_or_create_year ?m ''2nd Year'' = (?m, 0)"
    by (simp add: find_or_create_year_def)
  have h2: "find_or_create_branch (years ?m ! 0) ''ECE'' = (?ynew, 1)"
    by (simp add: find_or_create_branch_def)
  have h3: "find_or_create_subject (branches ?ynew ! 1) ''Signals'' = (?ece, 0)"
    by (simp add: find_or_create_subject_def)
  have h4: "add_resource json_dump ?m ''2nd Year'' ''ECE'' ''Signals'' ?new fs
       = (fst (add_resource json_dump ?m ''2nd Year'' ''ECE'' ''Signals'' ?new fs),
          snd (add_resource json_dump ?m ''2nd Year'' ''ECE'' ''Signals'' ?new fs))"
    by simp
  from add_resource_frame [OF h1 h2 h3 h4]
  have "years (fst (add_resource json_dump ?m ''2nd Year'' ''ECE'' ''Signals'' ?new fs))
     = [\<lparr>yname = ''2nd Year'', branches =
          [?cse, \<lparr>bname = ''ECE'', subjects = [\<lparr>sname = ''Signals'', resources = [?new]\<rparr>]\<rparr>]\<rparr>]"
    by simp
  then have "flatten_resources (fst (add_resource json_dump ?m ''2nd Year'' ''ECE'' ''Signals'' ?new fs))
     = [\<lparr>year = ''2nd Year'', branch = ''CSE'', subject = ''Maths'', ftitle = ''Algebra'',
         ftype = ''link'', furl = Some ''http://a'', fpath = None\<rparr>,
        \<lparr>year = ''2nd Year'', branch = ''ECE'', subject = ''Signals'', ftitle = ''Signals Notes'',
         ftype = ''link'', furl = Some ''http://x'', fpath = None\<rparr>]"
    by (simp add: flatten_resources_def flatten_year_def flatten_branch_def flatten_subject_def)
  with h1 show "find_or_create_year ?m ''2nd Year'' = (?m, 0)
   \<and> flatten_resources (fst (add_resource json_dump ?m ''2nd Year'' ''ECE'' ''Signals'' ?new fs))
     = [\<lparr>year = ''2nd Year'', branch = ''CSE'', subject = ''Maths'', ftitle = ''Algebra'',
         ftype = ''link'', furl = Some ''http://a'', fpath = None\<rparr>,
        \<lparr>year = ''2nd Year'', branch = ''ECE'', subject = ''Signals'', ftitle = ''Signals Notes'',
         ftype = ''link'', furl = Some ''http://x'', fpath = None\<rparr>]"
    by simp
qed

section \<open>Unique file names\<close>

declare str_nat.simps [simp del]

lemma digit_char_inj: "a < 10 \<Longrightarrow> b < 10 \<Longrightarrow> digit_char a = digit_char b \<Longrightarrow> a = b"
  by (simp add: digit_char_def char_of_eq_iff take_bit_nat_eq_self)

lemma str_nat_small: "n < 10 \<Longrightarrow> str_nat n = [digit_char n]"
  by (subst str_nat.simps) simp

lemma str_nat_big: "\<not> n < 10 \<Longrightarrow> str_nat n = str_nat (n div 10) @ [digit_char (n mod 10)]"
  by (subst str_nat.simps) simp

lemma str_nat_not_Nil: "str_nat n \<noteq> []"
  by (cases "n < 10") (simp_all add: str_nat_small str_nat_big)

lemma str_nat_inj: "str_nat a = str_nat b \<Longrightarrow> a = b"
proof (induction a arbitrary: b rule: str_nat.induct)
  case (1 a)
  show ?case
  proof (cases "a < 10")
    case True
    then have a: "str_nat a = [digit_char a]" by (rule str_nat_small)
    show ?thesis
    proof (cases "b < 10")
      case b: True
      then have "str_nat b = [digit_char b]" by (rule str_nat_small)
      with a "1.prems" have "digit_char a = digit_char b" by (simp only: list.inject)
      with True b show ?thesis by (rule digit_char_inj)
    next
      case False
      then have "str_nat b = str_nat (b div 10) @ [digit_char (b mod 10)]"
        by (rule str_nat_big)
      with a "1.prems" have "[digit_char a] = str_nat (b div 10) @ [digit_char (b mod 10)]"
        by (simp only:)
      then have "str_nat (b div 10) = []" by simp
      then show ?thesis by (simp only: str_nat_not_Nil)
    qed
  next
    case False
    then have a: "str_nat a = str_nat (a div 10) @ [digit_char (a mod 10)]"
      by (rule str_nat_big)
    show ?thesis
    proof (cases "b < 10")
      case True
      then have "str_nat b = [digit_char b]" by (rule str_nat_small)
      with a "1.prems" have "str_nat (a div 10) @ [digit_char (a mod 10)] = [digit_char b]"
        by (simp only:)
      then have "str_nat (a div 10) = []" by simp
      then show ?thesis by (simp only: str_nat_not_Nil)
    next
      case b: False
      then have "str_nat b = str_nat (b div 10) @ [digit_char (b mod 10)]"
        by (rule str_nat_big)
      with a "1.prems"
      have "str_nat (a div 10) @ [digit_char (a mod 10)] = str_nat (b div 10) @ [digit_char (b mod 10)]"
        by (simp only:)
      then have e: "str_nat (a div 10) = str_nat (b div 10)"
        "digit_char (a mod 10) = digit_char (b mod 10)"
        by simp_all
      from "1.IH" [OF False e(1)] have d: "a div 10 = b div 10" .
      have "a mod 10 = b mod 10"
        by (rule digit_char_inj [OF _ _ e(2)]) simp_all
      with d show ?thesis
        by (metis div_mult_mod_eq)
    qed
  qed
qed

lemma splitext_append: "splitext p = (base, ext) \<Longrightarrow> base @ ext = p"
  by (auto simp: splitext_def Let_def split: if_splits)


lemma numbered_inj: "numbered base ext j = numbered base ext k \<Longrightarrow> j = k"
  by (simp add: numbered_def str_nat_inj)

lemma numbered_not_first: "numbered base ext k \<noteq> base @ ext"
proof
  assume "numbered base ext k = base @ ext"
  then have "length (numbered base ext k) = length (base @ ext)" by simp
  then show False by (simp add: numbered_def)
qed

lemma finite_numbered:
  assumes "finite (entries fs folder)"
  shows "finite {k. c \<le> k \<and> numbered base ext k \<in> entries fs folder}"
proof -
  have "inj (numbered base ext)"
    by (rule injI) (rule numbered_inj)
  with assms have "finite (numbered base ext -` entries fs folder)"
    by (rule finite_vimageI)
  moreover have "{k. c \<le> k \<and> numbered base ext k \<in> entries fs folder}
      \<subseteq> numbered base ext -` entries fs folder"
    by auto
  ultimately show ?thesis by (rule rev_finite_subset)
qed

lemma unique_loop_stop:
  "x \<notin> entries fs folder \<Longrightarrow> unique_loop fs folder base ext c x = Some (c, x)"
  by (subst unique_loop.simps) (simp add: entries_def)

lemma unique_loop_step:
  "x \<in> entries fs folder \<Longrightarrow>
   unique_loop fs folder base ext c x = unique_loop fs folder base ext (Suc c) (numbered base ext c)"
  by (subst unique_loop.simps) (simp add: entries_def)

lemma unique_loop_result:
  assumes fin: "finite (entries fs folder)"
  shows "\<exists>c'. unique_loop fs folder base ext c x
              = Some (c', if c' = c then x else numbered base ext (c' - 1))
        \<and> c \<le> c'
        \<and> c' \<le> c + card {k. c \<le> k \<and> numbered base ext k \<in> entries fs folder}
                  + (if x \<in> entries fs folder then 1 else 0)
        \<and> (if c' = c then x else numbered base ext (c' - 1)) \<notin> entries fs folder
        \<and> (c < c' \<longrightarrow> x \<in> entries fs folder)
        \<and> (\<forall>k. c \<le> k \<and> Suc k < c' \<longrightarrow> numbered base ext k \<in> entries fs folder)"
proof (induction "card {k. c \<le> k \<and> numbered base ext k \<in> entries fs folder}"
    arbitrary: c x rule: less_induct)
  case less
  let ?E = "entries fs folder"
  let ?S = "\<lambda>c. {k. c \<le> k \<and> numbered base ext k \<in> ?E}"
  show ?case
  proof (cases "x \<in> ?E")
    case False
    then have "unique_loop fs folder base ext c x = Some (c, x)"
      by (rule unique_loop_stop)
    with False show ?thesis
      by (intro exI [of _ c]) auto
  next
    case x: True
    then have step: "unique_loop fs folder base ext c x
        = unique_loop fs folder base ext (Suc c) (numbered base ext c)"
      by (rule unique_loop_step)
    show ?thesis
    proof (cases "numbered base ext c \<in> ?E")
      case False
      then have "unique_loop fs folder base ext (Suc c) (numbered base ext c)
          = Some (Suc c, numbered base ext c)"
        by (rule unique_loop_stop)
      with step x False show ?thesis
        by (intro exI [of _ "Suc c"]) auto
    next
      case nc: True
      have finS: "finite (?S c)"
        using fin by (rule finite_numbered)
      have split: "?S c = insert c (?S (Suc c))"
        using nc by (auto simp: le_Suc_eq)
      have "c \<notin> ?S (Suc c)" by simp
      moreover have "finite (?S (Suc c))"
        using fin by (rule finite_numbered)
      ultimately have card: "card (?S c) = Suc (card (?S (Suc c)))"
        unfolding split by (rule card_insert_disjoint [rotated])
      then have "card (?S (Suc c)) < card (?S c)" by simp
      from less [OF this, of "numbered base ext c"]
      obtain c' where c':
        "unique_loop fs folder base ext (Suc c) (numbered base ext c)
           = Some (c', if c' = Suc c then numbered base ext c else numbered base ext (c' - 1))"
        "Suc c \<le> c'"
        "c' \<le> Suc c + card (?S (Suc c)) + (if numbered base ext c \<in> ?E then 1 else 0)"
        "(if c' = Suc c then numbered base ext c else numbered base ext (c' - 1)) \<notin> ?E"
        "\<forall>k. Suc c \<le> k \<and> Suc k < c' \<longrightarrow> numbered base ext k \<in> ?E"
        by blast
      from c'(4) nc have ne: "c' \<noteq> Suc c" by auto
      with c'(2) have gt: "Suc c < c'" by simp
      have 1: "unique_loop fs folder base ext c x
              = Some (c', if c' = c then x else numbered base ext (c' - 1))"
        using step c'(1) ne gt by simp
      have 2: "c \<le> c'" using gt by simp
      have 3: "c' \<le> c + card (?S c) + (if x \<in> ?E then 1 else 0)"
        using c'(3) nc x card by simp
      have 4: "(if c' = c then x else numbered base ext (c' - 1)) \<notin> ?E"
        using c'(4) ne gt by simp
      have 5: "\<forall>k. c \<le> k \<and> Suc k < c' \<longrightarrow> numbered base ext k \<in> ?E"
      proof (intro allI impI)
        fix k assume k: "c \<le> k \<and> Suc k < c'"
        show "numbered base ext k \<in> ?E"
        proof (cases "k = c")
          case True
          with nc show ?thesis by simp
        next
          case False
          with k have "Suc c \<le> k \<and> Suc k < c'" by simp
          with c'(5) show ?thesis by blast
        qed
      qed
      from 1 2 3 4 5 x show ?thesis
        by (intro exI [of _ c']) simp
    qed
  qed
qed


lemma card_numbered_le:
  assumes fin: "finite (entries fs folder)"
  shows "card {k. c \<le> k \<and> numbered base ext k \<in> entries fs folder}
           + (if base @ ext \<in> entries fs folder then 1 else 0)
         \<le> card (entries fs folder)"
proof -
  let ?E = "entries fs folder"
  let ?S = "{k. c \<le> k \<and> numbered base ext k \<in> ?E}"
  let ?X = "if base @ ext \<in> ?E then {base @ ext} else {}"
  have inj: "inj_on (numbered base ext) ?S"
    by (rule inj_onI) (rule numbered_inj)
  have finS: "finite ?S"
    using fin by (rule finite_numbered)
  have disj: "numbered base ext ` ?S \<inter> ?X = {}"
    using numbered_not_first [of base ext] by (auto split: if_splits dest: sym)
  have "card (numbered base ext ` ?S \<union> ?X) = card (numbered base ext ` ?S) + card ?X"
    using finS disj by (intro card_Un_disjoint) auto
  also have "card (numbered base ext ` ?S) = card ?S"
    using inj by (rule card_image)
  also have "card ?X = (if base @ ext \<in> ?E then 1 else 0)"
    by simp
  finally have eq: "card (numbered base ext ` ?S \<union> ?X)
      = card ?S + (if base @ ext \<in> ?E then 1 else 0)" .
  have "numbered base ext ` ?S \<union> ?X \<subseteq> ?E"
    by auto
  with fin have "card (numbered base ext ` ?S \<union> ?X) \<le> card ?E"
    by (intro card_mono)
  with eq show ?thesis by simp
qed

lemma path_join_inj: "path_join folder a = path_join folder b \<Longrightarrow> a = b"
  by (simp add: path_join_def)

lemma entries_store:
  "entries (fs(path_join folder c \<mapsto> buffer)) folder = insert c (entries fs folder)"
  by (auto simp: entries_def path_exists_def path_join_def)

lemma entries_finite: "finite (dom fs) \<Longrightarrow> finite (entries fs folder)"
proof -
  assume "finite (dom fs)"
  moreover have "inj (path_join folder)"
    by (rule injI) (rule path_join_inj)
  ultimately have "finite (path_join folder -` dom fs)"
    by (rule finite_vimageI)
  moreover have "entries fs folder \<subseteq> path_join folder -` dom fs"
    by (auto simp: entries_def path_exists_def)
  ultimately show ?thesis by (rule rev_finite_subset)
qed

lemma unique_filename_Some:
  assumes fin: "finite (entries fs folder)"
    and sp: "splitext n = (base, ext)"
  shows "\<exists>safe. unique_filename fs folder n = Some safe
         \<and> safe \<notin> entries fs folder
         \<and> (safe = n \<and> n \<notin> entries fs folder \<or>
            (\<exists>j. 1 \<le> j \<and> safe = numbered base ext j \<and> n \<in> entries fs folder \<and>
                 (\<forall>k. 1 \<le> k \<and> k < j \<longrightarrow> numbered base ext k \<in> entries fs folder)))"
proof -
  have n: "base @ ext = n"
    using sp by (rule splitext_append)
  from unique_loop_result [OF fin, of base ext 1 "base @ ext"]
  obtain c' where c':
    "unique_loop fs folder base ext 1 (base @ ext)
       = Some (c', if c' = 1 then base @ ext else numbered base ext (c' - 1))"
    "1 \<le> c'"
    "(if c' = 1 then base @ ext else numbered base ext (c' - 1)) \<notin> entries fs folder"
    "1 < c' \<longrightarrow> base @ ext \<in> entries fs folder"
    "\<forall>k. 1 \<le> k \<and> Suc k < c' \<longrightarrow> numbered base ext k \<in> entries fs folder"
    by blast
  let ?safe = "if c' = 1 then base @ ext else numbered base ext (c' - 1)"
  have uf: "unique_filename fs folder n = Some ?safe"
    using c'(1) sp by (simp add: unique_filename_def)
  show ?thesis
  proof (cases "c' = 1")
    case True
    with uf c'(3) n show ?thesis by auto
  next
    case False
    with c'(2) have gt: "1 < c'" by simp
    with c'(4) n have "n \<in> entries fs folder" by simp
    moreover have "1 \<le> c' - 1" using gt by simp
    moreover have "\<forall>k. 1 \<le> k \<and> k < c' - 1 \<longrightarrow> numbered base ext k \<in> entries fs folder"
      using c'(5) by auto
    ultimately have "\<exists>j. 1 \<le> j \<and> ?safe = numbered base ext j \<and> n \<in> entries fs folder \<and>
                 (\<forall>k. 1 \<le> k \<and> k < j \<longrightarrow> numbered base ext k \<in> entries fs folder)"
      using False by (intro exI [of _ "c' - 1"]) simp
    with uf c'(3) show ?thesis by blast
  qed
qed

lemma store_Some:
  assumes fin: "finite (entries fs folder)"
  shows "\<exists>safe. store fs folder n buffer = Some (safe, fs(path_join folder safe \<mapsto> buffer))
         \<and> safe \<notin> entries fs folder"
proof -
  obtain base ext where sp: "splitext n = (base, ext)"
    by (cases "splitext n")
  from unique_filename_Some [OF fin sp]
  obtain safe where "unique_filename fs folder n = Some safe" "safe \<notin> entries fs folder"
    by blast
  then show ?thesis
    by (simp add: store_def)
qed

lemma stores_Some:
  assumes fin: "finite (entries fs folder)"
  shows "\<exists>names fs'. stores k fs folder n buffer = Some (names, fs')
         \<and> length names = k \<and> distinct names
         \<and> set names \<inter> entries fs folder = {}
         \<and> entries fs' folder = entries fs folder \<union> set names"
  using fin
proof (induction k arbitrary: fs)
  case 0
  then show ?case by simp
next
  case (Suc k)
  from store_Some [OF Suc.prems, of n buffer]
  obtain safe where s: "store fs folder n buffer = Some (safe, fs(path_join folder safe \<mapsto> buffer))"
    "safe \<notin> entries fs folder"
    by blast
  let ?fs1 = "fs(path_join folder safe \<mapsto> buffer)"
  have e1: "entries ?fs1 folder = insert safe (entries fs folder)"
    by (rule entries_store)
  with Suc.prems have "finite (entries ?fs1 folder)" by simp
  from Suc.IH [OF this]
  obtain names fs' where r: "stores k ?fs1 folder n buffer = Some (names, fs')"
    "length names = k" "distinct names"
    "set names \<inter> entries ?fs1 folder = {}"
    "entries fs' folder = entries ?fs1 folder \<union> set names"
    by blast
  have 1: "stores (Suc k) fs folder n buffer = Some (safe # names, fs')"
    using s(1) r(1) by simp
  have 2: "safe \<notin> set names"
    using r(4) e1 by auto
  have 3: "set (safe # names) \<inter> entries fs folder = {}"
    using r(4) e1 s(2) by auto
  have 4: "entries fs' folder = entries fs folder \<union> set (safe # names)"
    using r(5) e1 by auto
  from 1 2 3 4 r(2) r(3) show ?case
    by (intro exI [of _ "safe # names"] exI [of _ fs']) simp
qed

lemma unique_loop_free:
  "unique_loop fs folder base ext c x = Some r \<Longrightarrow> snd r \<notin> entries fs folder"
proof (erule unique_loop.raw_induct [rotated])
  fix loop :: "fs \<Rightarrow> string \<Rightarrow> string \<Rightarrow> string \<Rightarrow> nat \<Rightarrow> string \<Rightarrow> (nat \<times> string) option"
    and fs folder base ext counter candidate r
  assume IH: "\<And>fs folder base ext counter candidate r.
      loop fs folder base ext counter candidate = Some r \<Longrightarrow> snd r \<notin> entries fs folder"
    and eq: "(if path_exists fs (path_join folder candidate)
         then loop fs folder base ext (counter + 1) (numbered base ext counter)
         else Some (counter, candidate)) = Some r"
  show "snd r \<notin> entries fs folder"
  proof (cases "path_exists fs (path_join folder candidate)")
    case True
    with eq have "loop fs folder base ext (counter + 1) (numbered base ext counter) = Some r"
      by simp
    then show ?thesis by (rule IH)
  next
    case False
    with eq have "r = (counter, candidate)" by simp
    with False show ?thesis by (simp add: entries_def)
  qed
qed


lemma unique_filename_free:
  "unique_filename fs folder n = Some safe \<Longrightarrow> safe \<notin> entries fs folder"
proof -
  assume u: "unique_filename fs folder n = Some safe"
  obtain base ext where sp: "splitext n = (base, ext)"
    by (cases "splitext n")
  from u sp obtain r where "unique_loop fs folder base ext 1 (base @ ext) = Some r" "snd r = safe"
    by (auto simp: unique_filename_def)
  then show ?thesis
    using unique_loop_free by blast
qed

lemma store_fresh:
  "store fs folder n buffer = Some (safe, fs1) \<Longrightarrow>
   safe \<notin> entries fs folder \<and> fs1 = fs(path_join folder safe \<mapsto> buffer)"
  by (auto simp: store_def split: option.splits dest: unique_filename_free)

lemma stores_distinct:
  "stores k fs folder n buffer = Some (names, fs') \<Longrightarrow>
   length names = k \<and> distinct names \<and> set names \<inter> entries fs folder = {}"
proof (induction k arbitrary: fs names fs')
  case 0
  then show ?case by simp
next
  case (Suc k)
  from Suc.prems obtain safe fs1 rest where
    st: "store fs folder n buffer = Some (safe, fs1)"
    and rest: "stores k fs1 folder n buffer = Some (rest, fs')"
    and names: "names = safe # rest"
    by (auto split: option.splits)
  from store_fresh [OF st] have fresh: "safe \<notin> entries fs folder"
    and fs1: "fs1 = fs(path_join folder safe \<mapsto> buffer)"
    by simp_all
  have e1: "entries fs1 folder = insert safe (entries fs folder)"
    unfolding fs1 by (rule entries_store)
  from Suc.IH [OF rest] have ih: "length rest = k" "distinct rest"
    "set rest \<inter> entries fs1 folder = {}"
    by simp_all
  from ih(3) e1 have "safe \<notin> set rest" "set rest \<inter> entries fs folder = {}"
    by auto
  with ih(1,2) fresh names show ?case
    by simp
qed

text \<open>
  Claim C5. Whenever \<open>unique_filename\<close> returns a name, no file of that name exists in
  the folder. Choosing a name and writing the file under it \<open>k\<close> times in a row, as the
  form does for an uploaded file (lines 135 to 138), with the same requested name and no
  file deleted in between, gives \<open>k\<close> names that are pairwise different and none of
  which was in the folder before. In a folder with finitely many entries both do return:
  \<open>unique_filename\<close> returns the requested name when that is free, and otherwise the
  requested name with \<^verbatim>\<open>_j\<close> before the extension, for the least \<open>j\<close> from 1 on whose
  candidate is free.
\<close>

theorem unique_filename_fresh:
  assumes sp: "splitext n = (base, ext)"
  shows "(\<forall>safe. unique_filename fs folder n = Some safe \<longrightarrow>
             \<not> path_exists fs (path_join folder safe))
       \<and> (\<forall>names fs'. stores k fs folder n buffer = Some (names, fs') \<longrightarrow>
             length names = k \<and> distinct names \<and> set names \<inter> entries fs folder = {})
       \<and> (finite (entries fs folder) \<longrightarrow>
             (\<exists>safe. unique_filename fs folder n = Some safe
                \<and> (safe = n \<and> n \<notin> entries fs folder \<or>
                   (\<exists>j. 1 \<le> j \<and> safe = numbered base ext j \<and> n \<in> entries fs folder \<and>
                        (\<forall>i. 1 \<le> i \<and> i < j \<longrightarrow> numbered base ext i \<in> entries fs folder))))
           \<and> (\<exists>names fs'. stores k fs folder n buffer = Some (names, fs')))"
proof -
  have 1: "\<forall>safe. unique_filename fs folder n = Some safe \<longrightarrow>
             \<not> path_exists fs (path_join folder safe)"
    using unique_filename_free [of fs folder n] by (simp add: entries_def)
  have 2: "\<forall>names fs'. stores k fs folder n buffer = Some (names, fs') \<longrightarrow>
             length names = k \<and> distinct names \<and> set names \<inter> entries fs folder = {}"
    using stores_distinct [of k fs folder n buffer] by blast
  have 3: "finite (entries fs folder) \<longrightarrow>
             (\<exists>safe. unique_filename fs folder n = Some safe
                \<and> (safe = n \<and> n \<notin> entries fs folder \<or>
                   (\<exists>j. 1 \<le> j \<and> safe = numbered base ext j \<and> n \<in> entries fs folder \<and>
                        (\<forall>i. 1 \<le> i \<and> i < j \<longrightarrow> numbered base ext i \<in> entries fs folder))))
           \<and> (\<exists>names fs'. stores k fs folder n buffer = Some (names, fs'))"
  proof
    assume fin: "finite (entries fs folder)"
    from unique_filename_Some [OF fin sp]
    have a: "\<exists>safe. unique_filename fs folder n = Some safe
                \<and> (safe = n \<and> n \<notin> entries fs folder \<or>
                   (\<exists>j. 1 \<le> j \<and> safe = numbered base ext j \<and> n \<in> entries fs folder \<and>
                        (\<forall>i. 1 \<le> i \<and> i < j \<longrightarrow> numbered base ext i \<in> entries fs folder)))"
      by blast
    from stores_Some [OF fin, of k n buffer]
    have b: "\<exists>names fs'. stores k fs folder n buffer = Some (names, fs')"
      by blast
    from a b show "(\<exists>safe. unique_filename fs folder n = Some safe
                \<and> (safe = n \<and> n \<notin> entries fs folder \<or>
                   (\<exists>j. 1 \<le> j \<and> safe = numbered base ext j \<and> n \<in> entries fs folder \<and>
                        (\<forall>i. 1 \<le> i \<and> i < j \<longrightarrow> numbered base ext i \<in> entries fs folder))))
           \<and> (\<exists>names fs'. stores k fs folder n buffer = Some (names, fs'))"
      by (rule conjI)
  qed
  from 1 2 3 show ?thesis
    by (intro conjI)
qed

theorem unique_filename_fresh_witness:
  "splitext ''a.txt'' = (''a'', ''.txt'')
   \<and> finite (entries [''static/a.txt'' \<mapsto> ''x''] ''static'')
   \<and> unique_filename [''static/a.txt'' \<mapsto> ''x''] ''static'' ''a.txt'' = Some ''a_1.txt''
   \<and> (\<exists>names fs'. stores 3 [''static/a.txt'' \<mapsto> ''x''] ''static'' ''a.txt'' ''y'' = Some (names, fs')
          \<and> length names = 3 \<and> distinct names)"
proof -
  let ?fs = "[''static/a.txt'' \<mapsto> ''x'']"
  have h1: "finite (entries ?fs ''static'')"
    by (rule entries_finite) simp
  have h2: "splitext ''a.txt'' = (''a'', ''.txt'')"
    by code_simp
  have n1: "numbered ''a'' ''.txt'' 1 = ''a_1.txt''"
    by code_simp
  have e: "entries ?fs ''static'' = {''a.txt''}"
    by (auto simp: entries_def path_exists_def path_join_def)
  note th = unique_filename_fresh [OF h2, of ?fs "''static''" 3 "''y''"]
  from th h1 obtain safe where s: "unique_filename ?fs ''static'' ''a.txt'' = Some safe"
    "safe = ''a.txt'' \<and> ''a.txt'' \<notin> entries ?fs ''static'' \<or>
       (\<exists>j. 1 \<le> j \<and> safe = numbered ''a'' ''.txt'' j \<and> ''a.txt'' \<in> entries ?fs ''static'' \<and>
            (\<forall>i. 1 \<le> i \<and> i < j \<longrightarrow> numbered ''a'' ''.txt'' i \<in> entries ?fs ''static''))"
    by blast
  from s(2) e obtain j where j: "1 \<le> j" "safe = numbered ''a'' ''.txt'' j"
    "\<forall>i. 1 \<le> i \<and> i < j \<longrightarrow> numbered ''a'' ''.txt'' i \<in> entries ?fs ''static''"
    by auto
  have "j = 1"
  proof (rule ccontr)
    assume "j \<noteq> 1"
    with j(1) have "1 \<le> (1::nat) \<and> 1 < j" by simp
    with j(3) have "numbered ''a'' ''.txt'' 1 \<in> entries ?fs ''static''" by blast
    then show False unfolding n1 e by simp
  qed
  with j(2) have "safe = ''a_1.txt''"
    unfolding n1 [symmetric] by (simp only:)
  with s(1) have uf: "unique_filename ?fs ''static'' ''a.txt'' = Some ''a_1.txt''"
    by (simp only:)
  from th h1 obtain names fs' where st: "stores 3 ?fs ''static'' ''a.txt'' ''y'' = Some (names, fs')"
    by blast
  with th have "length names = 3 \<and> distinct names"
    by blast
  with st have ex: "\<exists>names fs'. stores 3 ?fs ''static'' ''a.txt'' ''y'' = Some (names, fs')
          \<and> length names = 3 \<and> distinct names"
    by blast
  from h2 h1 uf ex show ?thesis
    by (intro conjI)
qed

text \<open>
  Claim C10. In a folder with finitely many entries, the loop of \<open>unique_filename\<close> ends
  for every requested name: the candidates with the numbers 1, 2, ... are pairwise
  different and differ from the first candidate, and the loop ends with a free candidate
  after testing at most one candidate more than the folder has entries (the counter it
  ends with is the number of candidates it has tested).
\<close>

theorem unique_filename_terminates:
  assumes fin: "finite (entries fs folder)"
    and sp: "splitext n = (base, ext)"
  shows "\<exists>c' safe.
           unique_loop fs folder base ext 1 (base @ ext) = Some (c', safe)
         \<and> unique_filename fs folder n = Some safe
         \<and> safe \<notin> entries fs folder
         \<and> 1 \<le> c' \<and> c' \<le> card (entries fs folder) + 1
         \<and> (\<forall>j k. numbered base ext j = numbered base ext k \<longrightarrow> j = k)
         \<and> (\<forall>k. numbered base ext k \<noteq> base @ ext)"
proof -
  from unique_loop_result [OF fin, of base ext 1 "base @ ext"]
  obtain c' where c':
    "unique_loop fs folder base ext 1 (base @ ext)
       = Some (c', if c' = 1 then base @ ext else numbered base ext (c' - 1))"
    "1 \<le> c'"
    "c' \<le> 1 + card {k. 1 \<le> k \<and> numbered base ext k \<in> entries fs folder}
              + (if base @ ext \<in> entries fs folder then 1 else 0)"
    "(if c' = 1 then base @ ext else numbered base ext (c' - 1)) \<notin> entries fs folder"
    by blast
  let ?safe = "if c' = 1 then base @ ext else numbered base ext (c' - 1)"
  have uf: "unique_filename fs folder n = Some ?safe"
    using c'(1) sp by (simp add: unique_filename_def)
  have bound: "c' \<le> card (entries fs folder) + 1"
    using c'(3) card_numbered_le [OF fin, of 1 base ext] by simp
  have d1: "\<forall>j k. numbered base ext j = numbered base ext k \<longrightarrow> j = k"
    by (blast dest: numbered_inj)
  have d2: "\<forall>k. numbered base ext k \<noteq> base @ ext"
    by (simp add: numbered_not_first)
  from c'(1) uf c'(4) c'(2) bound d1 d2 show ?thesis
    by blast
qed

theorem unique_filename_terminates_witness:
  "finite (entries [''static/notes.pdf'' \<mapsto> ''a'', ''static/notes_1.pdf'' \<mapsto> ''b''] ''static'')
   \<and> splitext ''notes.pdf'' = (''notes'', ''.pdf'')
   \<and> unique_loop [''static/notes.pdf'' \<mapsto> ''a'', ''static/notes_1.pdf'' \<mapsto> ''b''] ''static''
        ''notes'' ''.pdf'' 1 ''notes.pdf'' = Some (3, ''notes_2.pdf'')
   \<and> unique_filename [''static/notes.pdf'' \<mapsto> ''a'', ''static/notes_1.pdf'' \<mapsto> ''b''] ''static''
        ''notes.pdf'' = Some ''notes_2.pdf''
   \<and> card (entries [''static/notes.pdf'' \<mapsto> ''a'', ''static/notes_1.pdf'' \<mapsto> ''b''] ''static'') = 2"
proof -
  let ?fs = "[''static/notes.pdf'' \<mapsto> ''a'', ''static/notes_1.pdf'' \<mapsto> ''b'']"
  have h1: "finite (entries ?fs ''static'')"
    by (rule entries_finite) simp
  have h2: "splitext ''notes.pdf'' = (''notes'', ''.pdf'')"
    by code_simp
  have n1: "numbered ''notes'' ''.pdf'' 1 = ''notes_1.pdf''"
    by code_simp
  have n2: "numbered ''notes'' ''.pdf'' 2 = ''notes_2.pdf''"
    by code_simp
  have e: "entries ?fs ''static'' = {''notes.pdf'', ''notes_1.pdf''}"
    by (auto simp: entries_def path_exists_def path_join_def)
  have "unique_loop ?fs ''static'' ''notes'' ''.pdf'' 1 ''notes.pdf''
      = unique_loop ?fs ''static'' ''notes'' ''.pdf'' (Suc 1) (numbered ''notes'' ''.pdf'' 1)"
    by (rule unique_loop_step) (simp add: e)
  also have "\<dots> = unique_loop ?fs ''static'' ''notes'' ''.pdf'' 2 ''notes_1.pdf''"
    by (simp only: n1 Suc_1)
  also have "\<dots> = unique_loop ?fs ''static'' ''notes'' ''.pdf'' (Suc 2) (numbered ''notes'' ''.pdf'' 2)"
    by (rule unique_loop_step) (simp add: e)
  also have "\<dots> = unique_loop ?fs ''static'' ''notes'' ''.pdf'' 3 ''notes_2.pdf''"
    by (simp add: n2)
  also have "\<dots> = Some (3, ''notes_2.pdf'')"
    by (rule unique_loop_stop) (simp add: e)
  finally have ev: "unique_loop ?fs ''static'' ''notes'' ''.pdf'' 1 ''notes.pdf''
      = Some (3, ''notes_2.pdf'')" .
  from unique_filename_terminates [OF h1 h2] ev
  have uf: "unique_filename ?fs ''static'' ''notes.pdf'' = Some ''notes_2.pdf''"
    by auto
  have c: "card (entries ?fs ''static'') = 2"
    by (simp add: e)
  from h1 h2 ev uf c show ?thesis
    by blast
qed

section \<open>The form and the type of a resource\<close>

lemma save_manifest_other: "p \<noteq> MANIFEST_FILE \<Longrightarrow> save_manifest json_dump m fs p = fs p"
  by (simp add: save_manifest_def)

lemma ensure_dirs_other: "p \<noteq> MANIFEST_FILE \<Longrightarrow> ensure_dirs json_dump fs p = fs p"
  by (simp add: ensure_dirs_def)

lemma snd_add_resource:
  "snd (add_resource json_dump m yn bn sn r fs)
     = save_manifest json_dump (fst (add_resource json_dump m yn bn sn r fs)) fs"
  by (simp add: add_resource_def Let_def split_beta)

lemma add_resource_other:
  "p \<noteq> MANIFEST_FILE \<Longrightarrow> snd (add_resource json_dump m yn bn sn r fs) p = fs p"
  by (simp add: snd_add_resource save_manifest_other)

text \<open>
  Claim C4. The form offers the types \<^verbatim>\<open>"link"\<close> and \<^verbatim>\<open>"upload_file"\<close>, and the branch
  that saves the uploaded file tests for \<^verbatim>\<open>"file"\<close>. So for every submission with a type
  the form offers: the type is not \<^verbatim>\<open>"file"\<close>; the submission returns a notice and leaves
  every file other than the manifest document as it was, so no uploaded file is ever
  stored; and a submission of type \<^verbatim>\<open>"upload_file"\<close> with the four required fields
  filled in adds a resource of type \<^verbatim>\<open>"link"\<close> with an empty URL and no path.
\<close>

theorem submit_never_saves_file:
  assumes "res_type f \<in> set res_type_options"
  shows "res_type f \<noteq> ''file''
       \<and> (\<exists>n m' fs'. submit json_dump now f m fs = Some (Inr (n, m', fs'))
                     \<and> (\<forall>p. p \<noteq> MANIFEST_FILE \<longrightarrow> fs' p = fs p))
       \<and> (res_type f = ''upload_file'' \<and> year_name f \<noteq> [] \<and> branch_name f \<noteq> [] \<and>
          subject_name f \<noteq> [] \<and> form_title f \<noteq> [] \<longrightarrow>
            submit json_dump now f m fs
              = Some (Inr (Success_added,
                  add_resource json_dump m (strip (year_name f)) (strip (branch_name f))
                    (strip (subject_name f))
                    \<lparr>title = form_title f, rtype = ''link'', url = Some [], path = None,
                     meta = [(''added'', now)]\<rparr>
                    (ensure_dirs json_dump fs))))"
proof -
  from assms have t: "res_type f = ''link'' \<or> res_type f = ''upload_file''"
    by (simp add: res_type_options_def)
  then have nf: "res_type f \<noteq> ''file''"
    by auto
  let ?ok = "year_name f \<noteq> [] \<and> branch_name f \<noteq> [] \<and> subject_name f \<noteq> [] \<and> form_title f \<noteq> []"
  let ?url = "if res_type f = ''link'' then url_input f else []"
  let ?res = "\<lparr>title = form_title f, rtype = ''link'', url = Some ?url, path = None,
               meta = [(''added'', now)]\<rparr>"
  let ?add = "add_resource json_dump m (strip (year_name f)) (strip (branch_name f))
                (strip (subject_name f)) ?res (ensure_dirs json_dump fs)"
  have eq: "submit json_dump now f m fs =
      (if \<not> ?ok then Some (Inr (Error_required_fields, m, fs))
       else if res_type f = ''link'' \<and> ?url = [] then Some (Inr (Error_link_url, m, fs))
       else Some (Inr (Success_added, fst ?add, snd ?add)))"
    using nf by (simp add: submit_def Let_def split_beta)
  have other: "\<forall>p. p \<noteq> MANIFEST_FILE \<longrightarrow> snd ?add p = fs p"
    by (simp add: add_resource_other ensure_dirs_other)
  have 2: "\<exists>n m' fs'. submit json_dump now f m fs = Some (Inr (n, m', fs'))
                     \<and> (\<forall>p. p \<noteq> MANIFEST_FILE \<longrightarrow> fs' p = fs p)"
  proof (cases "\<not> ?ok")
    case True
    with eq show ?thesis by auto
  next
    case ok: False
    show ?thesis
    proof (cases "res_type f = ''link'' \<and> ?url = []")
      case True
      with eq ok show ?thesis by auto
    next
      case False
      with eq ok have "submit json_dump now f m fs = Some (Inr (Success_added, fst ?add, snd ?add))"
        by simp
      with other show ?thesis by blast
    qed
  qed
  have 3: "res_type f = ''upload_file'' \<and> ?ok \<longrightarrow>
            submit json_dump now f m fs
              = Some (Inr (Success_added,
                  add_resource json_dump m (strip (year_name f)) (strip (branch_name f))
                    (strip (subject_name f))
                    \<lparr>title = form_title f, rtype = ''link'', url = Some [], path = None,
                     meta = [(''added'', now)]\<rparr>
                    (ensure_dirs json_dump fs)))"
    using eq by auto
  from nf 2 3 show ?thesis by blast
qed

theorem submit_never_saves_file_witness:
  "\<forall>json_dump now.
     res_type \<lparr>year_name = ''2nd Year'', branch_name = ''ECE'', subject_name = ''Signals'',
               form_title = ''Notes'', res_type = ''upload_file'', url_input = [],
               file_input = Some \<lparr>upload_name = ''notes.pdf'', upload_buffer = ''data''\<rparr>\<rparr>
       \<in> set res_type_options
   \<and> submit json_dump now
        \<lparr>year_name = ''2nd Year'', branch_name = ''ECE'', subject_name = ''Signals'',
         form_title = ''Notes'', res_type = ''upload_file'', url_input = [],
         file_input = Some \<lparr>upload_name = ''notes.pdf'', upload_buffer = ''data''\<rparr>\<rparr>
        \<lparr>years = []\<rparr> Map.empty
     = Some (Inr (Success_added,
         \<lparr>years = [\<lparr>yname = ''2nd Year'', branches = [\<lparr>bname = ''ECE'', subjects =
            [\<lparr>sname = ''Signals'', resources =
               [\<lparr>title = ''Notes'', rtype = ''link'', url = Some [], path = None,
                 meta = [(''added'', now)]\<rparr>]\<rparr>]\<rparr>]\<rparr>]\<rparr>,
         [MANIFEST_FILE \<mapsto> json_dump
           \<lparr>years = [\<lparr>yname = ''2nd Year'', branches = [\<lparr>bname = ''ECE'', subjects =
              [\<lparr>sname = ''Signals'', resources =
                 [\<lparr>title = ''Notes'', rtype = ''link'', url = Some [], path = None,
                   meta = [(''added'', now)]\<rparr>]\<rparr>]\<rparr>]\<rparr>]\<rparr>]))"
proof (intro allI)
  fix json_dump :: "manifest \<Rightarrow> string" and now :: string
  let ?f = "\<lparr>year_name = ''2nd Year'', branch_name = ''ECE'', subject_name = ''Signals'',
             form_title = ''Notes'', res_type = ''upload_file'', url_input = [],
             file_input = Some \<lparr>upload_name = ''notes.pdf'', upload_buffer = ''data''\<rparr>\<rparr>"
  let ?m' = "\<lparr>years = [\<lparr>yname = ''2nd Year'', branches = [\<lparr>bname = ''ECE'', subjects =
            [\<lparr>sname = ''Signals'', resources =
               [\<lparr>title = ''Notes'', rtype = ''link'', url = Some [], path = None,
                 meta = [(''added'', now)]\<rparr>]\<rparr>]\<rparr>]\<rparr>]\<rparr>"
  have h: "res_type ?f \<in> set res_type_options"
    by (simp add: res_type_options_def)
  have s1: "strip ''2nd Year'' = ''2nd Year''" by code_simp
  have s2: "strip ''ECE'' = ''ECE''" by code_simp
  have s3: "strip ''Signals'' = ''Signals''" by code_simp
  have ar: "add_resource json_dump \<lparr>years = []\<rparr> ''2nd Year'' ''ECE'' ''Signals''
              \<lparr>title = ''Notes'', rtype = ''link'', url = Some [], path = None,
               meta = [(''added'', now)]\<rparr> (ensure_dirs json_dump Map.empty)
            = (?m', [MANIFEST_FILE \<mapsto> json_dump ?m'])"
    by (simp add: add_resource_def find_or_create_year_def find_or_create_branch_def
        find_or_create_subject_def Let_def save_manifest_def ensure_dirs_def)
  from submit_never_saves_file [OF h, of json_dump now "\<lparr>years = []\<rparr>" Map.empty]
  have "submit json_dump now ?f \<lparr>years = []\<rparr> Map.empty
     = Some (Inr (Success_added, ?m', [MANIFEST_FILE \<mapsto> json_dump ?m']))"
    by (simp add: s1 s2 s3 ar)
  with h show "res_type ?f \<in> set res_type_options
   \<and> submit json_dump now ?f \<lparr>years = []\<rparr> Map.empty
     = Some (Inr (Success_added, ?m', [MANIFEST_FILE \<mapsto> json_dump ?m']))"
    by blast
qed

section \<open>Deleting\<close>

lemma nth_opt_Some: "nth_opt xs i = Some x \<longleftrightarrow> i < length xs \<and> xs ! i = x"
  by (auto simp: nth_opt_def)

lemma remove_backing_file_cases:
  "remove_backing_file res fs =
     Inr (if rtype res = ''file'' then
            (case path res of None \<Rightarrow> fs
             | Some p \<Rightarrow> if path_exists fs p then os_remove fs p else fs)
          else fs)"
  by (cases "path res") (simp_all add: remove_backing_file_def path_exists_def)

lemma os_remove_gone: "\<not> path_exists (os_remove fs p) p"
  by (simp add: os_remove_def path_exists_def)

text \<open>
  Claim C6. The delete button of a resource (lines 239 to 245) first deals with the
  backing file, then removes the resource from the resources of its subject, then saves
  the manifest: the manifest is saved to the file system that the first step left. The
  first step never fails. For a resource of type \<^verbatim>\<open>"file"\<close> with a recorded path it removes
  the file at that path when it exists, after which no file exists there, and changes
  nothing when the file is missing or no path is recorded. For a resource of any other
  type, \<^verbatim>\<open>"link"\<close> among them, it tests and removes no file: the file system is left as it
  was, and only the manifest document is written afterwards.
\<close>

theorem delete_resource_removes_file_first:
  assumes y: "nth_opt (years m) yi = Some y"
    and b: "nth_opt (branches y) bi = Some b"
    and s: "nth_opt (subjects b) si = Some s"
    and r: "nth_opt (resources s) ri = Some res"
  shows "\<exists>m' fs1.
           delete_resource json_dump yi bi si ri m fs
             = Some (Inr (m', save_manifest json_dump m' fs1))
         \<and> remove_backing_file res fs = Inr fs1
         \<and> m' = remove_resource yi bi si res m
         \<and> resources (subjects (branches (years m' ! yi) ! bi) ! si) = remove1 res (resources s)
         \<and> (rtype res = ''file'' \<longrightarrow>
              (\<forall>p. path res = Some p \<longrightarrow>
                   fs1 = (if path_exists fs p then os_remove fs p else fs) \<and> \<not> path_exists fs1 p)
              \<and> (path res = None \<longrightarrow> fs1 = fs))
         \<and> (rtype res \<noteq> ''file'' \<longrightarrow> fs1 = fs)"
proof -
  define fs1 where "fs1 = (if rtype res = ''file'' then
            (case path res of None \<Rightarrow> fs
             | Some p \<Rightarrow> if path_exists fs p then os_remove fs p else fs)
          else fs)"
  define m' where "m' = remove_resource yi bi si res m"
  have rb: "remove_backing_file res fs = Inr fs1"
    unfolding fs1_def by (rule remove_backing_file_cases)
  have 1: "delete_resource json_dump yi bi si ri m fs
             = Some (Inr (m', save_manifest json_dump m' fs1))"
    using y b s r by (simp add: delete_resource_def rb Let_def m'_def)
  from y b s have idx: "yi < length (years m)" "years m ! yi = y"
    "bi < length (branches y)" "branches y ! bi = b"
    "si < length (subjects b)" "subjects b ! si = s"
    by (simp_all add: nth_opt_Some)
  have 2: "resources (subjects (branches (years m' ! yi) ! bi) ! si) = remove1 res (resources s)"
    using idx by (simp add: m'_def remove_resource_def Let_def)
  have 3: "rtype res = ''file'' \<longrightarrow>
              (\<forall>p. path res = Some p \<longrightarrow>
                   fs1 = (if path_exists fs p then os_remove fs p else fs) \<and> \<not> path_exists fs1 p)
              \<and> (path res = None \<longrightarrow> fs1 = fs)"
    by (auto simp: fs1_def os_remove_gone)
  have 4: "rtype res \<noteq> ''file'' \<longrightarrow> fs1 = fs"
    by (simp add: fs1_def)
  show ?thesis
  proof (intro exI conjI)
    show "delete_resource json_dump yi bi si ri m fs
             = Some (Inr (m', save_manifest json_dump m' fs1))"
      by (rule 1)
    show "remove_backing_file res fs = Inr fs1"
      by (rule rb)
    show "m' = remove_resource yi bi si res m"
      by (rule m'_def)
    show "resources (subjects (branches (years m' ! yi) ! bi) ! si) = remove1 res (resources s)"
      by (rule 2)
    show "rtype res = ''file'' \<longrightarrow>
              (\<forall>p. path res = Some p \<longrightarrow>
                   fs1 = (if path_exists fs p then os_remove fs p else fs) \<and> \<not> path_exists fs1 p)
              \<and> (path res = None \<longrightarrow> fs1 = fs)"
      by (rule 3)
    show "rtype res \<noteq> ''file'' \<longrightarrow> fs1 = fs"
      by (rule 4)
  qed
qed

theorem delete_resource_removes_file_first_witness:
  "\<forall>json_dump.
     nth_opt (years \<lparr>years = [\<lparr>yname = ''2nd Year'', branches = [\<lparr>bname = ''ECE'', subjects =
        [\<lparr>sname = ''Signals'', resources =
           [\<lparr>title = ''Notes'', rtype = ''file'', url = None, path = Some ''static/notes.pdf'',
             meta = []\<rparr>]\<rparr>]\<rparr>]\<rparr>]\<rparr>) 0
       = Some \<lparr>yname = ''2nd Year'', branches = [\<lparr>bname = ''ECE'', subjects =
        [\<lparr>sname = ''Signals'', resources =
           [\<lparr>title = ''Notes'', rtype = ''file'', url = None, path = Some ''static/notes.pdf'',
             meta = []\<rparr>]\<rparr>]\<rparr>]\<rparr>
   \<and> delete_resource json_dump 0 0 0 0
       \<lparr>years = [\<lparr>yname = ''2nd Year'', branches = [\<lparr>bname = ''ECE'', subjects =
        [\<lparr>sname = ''Signals'', resources =
           [\<lparr>title = ''Notes'', rtype = ''file'', url = None, path = Some ''static/notes.pdf'',
             meta = []\<rparr>]\<rparr>]\<rparr>]\<rparr>]\<rparr>
       [''static/notes.pdf'' \<mapsto> ''data'']
     = Some (Inr
        (\<lparr>years = [\<lparr>yname = ''2nd Year'', branches = [\<lparr>bname = ''ECE'', subjects =
           [\<lparr>sname = ''Signals'', resources = []\<rparr>]\<rparr>]\<rparr>]\<rparr>,
         [MANIFEST_FILE \<mapsto> json_dump
           \<lparr>years = [\<lparr>yname = ''2nd Year'', branches = [\<lparr>bname = ''ECE'', subjects =
             [\<lparr>sname = ''Signals'', resources = []\<rparr>]\<rparr>]\<rparr>]\<rparr>]))"
proof (intro allI)
  fix json_dump :: "manifest \<Rightarrow> string"
  let ?res = "\<lparr>title = ''Notes'', rtype = ''file'', url = None, path = Some ''static/notes.pdf'',
             meta = []\<rparr>"
  let ?s = "\<lparr>sname = ''Signals'', resources = [?res]\<rparr>"
  let ?b = "\<lparr>bname = ''ECE'', subjects = [?s]\<rparr>"
  let ?y = "\<lparr>yname = ''2nd Year'', branches = [?b]\<rparr>"
  let ?m = "\<lparr>years = [?y]\<rparr>"
  let ?m' = "\<lparr>years = [\<lparr>yname = ''2nd Year'', branches = [\<lparr>bname = ''ECE'', subjects =
           [\<lparr>sname = ''Signals'', resources = []\<rparr>]\<rparr>]\<rparr>]\<rparr>"
  let ?fs = "[''static/notes.pdf'' \<mapsto> ''data'']"
  have h1: "nth_opt (years ?m) 0 = Some ?y" by (simp add: nth_opt_def)
  have h2: "nth_opt (branches ?y) 0 = Some ?b" by (simp add: nth_opt_def)
  have h3: "nth_opt (subjects ?b) 0 = Some ?s" by (simp add: nth_opt_def)
  have h4: "nth_opt (resources ?s) 0 = Some ?res" by (simp add: nth_opt_def)
  from delete_resource_removes_file_first [OF h1 h2 h3 h4, of json_dump ?fs]
  obtain m' fs1 where d:
    "delete_resource json_dump 0 0 0 0 ?m ?fs = Some (Inr (m', save_manifest json_dump m' fs1))"
    "m' = remove_resource 0 0 0 ?res ?m"
    "rtype ?res = ''file'' \<longrightarrow>
       (\<forall>p. path ?res = Some p \<longrightarrow>
          fs1 = (if path_exists ?fs p then os_remove ?fs p else ?fs) \<and> \<not> path_exists fs1 p)
       \<and> (path ?res = None \<longrightarrow> fs1 = ?fs)"
    by (elim exE conjE) (rule that)
  from d(2) have m': "m' = ?m'"
    by (simp add: remove_resource_def)
  from d(3) have "fs1 = (if path_exists ?fs ''static/notes.pdf'' then os_remove ?fs ''static/notes.pdf'' else ?fs)"
    by simp
  then have fs1: "fs1 = Map.empty"
    by (simp add: path_exists_def os_remove_def)
  from d(1) h1 show "nth_opt (years ?m) 0 = Some ?y
   \<and> delete_resource json_dump 0 0 0 0 ?m ?fs
     = Some (Inr (?m', [MANIFEST_FILE \<mapsto> json_dump ?m']))"
    unfolding m' fs1 by (simp add: save_manifest_def)
qed

lemma flatten_year_year: "r \<in> set (flatten_year y) \<Longrightarrow> year r = yname y"
  by (auto simp: flatten_year_def flatten_branch_def flatten_subject_def)

lemma filter_flatten_year:
  "filter (\<lambda>r. year r \<noteq> n) (flatten_year y) = (if yname y = n then [] else flatten_year y)"
  by (auto simp: filter_empty_conv filter_id_conv dest: flatten_year_year)

lemma filter_flatten_absent:
  "n \<notin> yname ` set ys \<Longrightarrow>
   filter (\<lambda>r. year r \<noteq> n) (concat (map flatten_year ys)) = concat (map flatten_year ys)"
  by (induction ys) (auto simp: filter_flatten_year)

lemma flatten_remove1:
  "distinct (map yname ys) \<Longrightarrow> y \<in> set ys \<Longrightarrow>
   concat (map flatten_year (remove1 y ys))
     = filter (\<lambda>r. year r \<noteq> yname y) (concat (map flatten_year ys))"
proof (induction ys)
  case Nil
  then show ?case by simp
next
  case (Cons a ys)
  show ?case
  proof (cases "a = y")
    case True
    with Cons.prems have "yname y \<notin> yname ` set ys" by simp
    then have "filter (\<lambda>r. year r \<noteq> yname y) (concat (map flatten_year ys))
        = concat (map flatten_year ys)"
      by (rule filter_flatten_absent)
    with True show ?thesis by (simp add: filter_flatten_year)
  next
    case False
    with Cons.prems have y: "y \<in> set ys" by simp
    with Cons.prems have "yname a \<noteq> yname y" by force
    moreover from Cons.IH Cons.prems y
    have "concat (map flatten_year (remove1 y ys))
        = filter (\<lambda>r. year r \<noteq> yname y) (concat (map flatten_year ys))"
      by simp
    ultimately show ?thesis using False by (simp add: filter_flatten_year)
  qed
qed

lemma save_manifest_keeps: "path_exists fs p \<Longrightarrow> path_exists (save_manifest json_dump m fs) p"
  by (simp add: save_manifest_def path_exists_def)

text \<open>
  Claim C7. The delete button of a year removes that year from the list of years, which
  gets one shorter, and saves the manifest. When the names of the years are pairwise
  different, the flat list of the resources afterwards is the one before without the
  records of that year: all its branches, subjects and resources are gone from it, and
  the other records stay in their order. The only file written is the manifest
  document: every other path holds what it held, and every file that existed before
  exists afterwards, the backing files of the resources of the deleted year included.
\<close>

theorem delete_year_keeps_files:
  assumes yi: "yi < length (years m)"
  shows "\<exists>m'. delete_year json_dump yi m fs = Some (m', save_manifest json_dump m' fs)
         \<and> years m' = remove1 (years m ! yi) (years m)
         \<and> length (years m') + 1 = length (years m)
         \<and> (distinct (map yname (years m)) \<longrightarrow>
              flatten_resources m'
                = filter (\<lambda>r. year r \<noteq> yname (years m ! yi)) (flatten_resources m))
         \<and> (\<forall>p. p \<noteq> MANIFEST_FILE \<longrightarrow> save_manifest json_dump m' fs p = fs p)
         \<and> (\<forall>p. path_exists fs p \<longrightarrow> path_exists (save_manifest json_dump m' fs) p)"
proof -
  define m' where "m' = m\<lparr>years := remove1 (years m ! yi) (years m)\<rparr>"
  have mem: "years m ! yi \<in> set (years m)"
    using yi by simp
  have 1: "delete_year json_dump yi m fs = Some (m', save_manifest json_dump m' fs)"
    using yi by (simp add: delete_year_def nth_opt_def m'_def Let_def)
  have 2: "years m' = remove1 (years m ! yi) (years m)"
    by (simp add: m'_def)
  have 3: "length (years m') + 1 = length (years m)"
    using mem yi by (simp add: 2 length_remove1)
  have 4: "distinct (map yname (years m)) \<longrightarrow>
              flatten_resources m'
                = filter (\<lambda>r. year r \<noteq> yname (years m ! yi)) (flatten_resources m)"
    using mem by (simp add: flatten_resources_def 2 flatten_remove1)
  have 5: "\<forall>p. p \<noteq> MANIFEST_FILE \<longrightarrow> save_manifest json_dump m' fs p = fs p"
    by (simp add: save_manifest_def)
  have 6: "\<forall>p. path_exists fs p \<longrightarrow> path_exists (save_manifest json_dump m' fs) p"
    by (simp add: save_manifest_keeps)
  show ?thesis
  proof (intro exI conjI)
    show "delete_year json_dump yi m fs = Some (m', save_manifest json_dump m' fs)" by (rule 1)
    show "years m' = remove1 (years m ! yi) (years m)" by (rule 2)
    show "length (years m') + 1 = length (years m)" by (rule 3)
    show "distinct (map yname (years m)) \<longrightarrow>
              flatten_resources m'
                = filter (\<lambda>r. year r \<noteq> yname (years m ! yi)) (flatten_resources m)" by (rule 4)
    show "\<forall>p. p \<noteq> MANIFEST_FILE \<longrightarrow> save_manifest json_dump m' fs p = fs p" by (rule 5)
    show "\<forall>p. path_exists fs p \<longrightarrow> path_exists (save_manifest json_dump m' fs) p" by (rule 6)
  qed
qed

theorem delete_year_keeps_files_witness:
  "\<forall>json_dump.
     (0::nat) < length (years \<lparr>years =
        [\<lparr>yname = ''1st Year'', branches = [\<lparr>bname = ''CSE'', subjects =
           [\<lparr>sname = ''Maths'', resources =
              [\<lparr>title = ''Book'', rtype = ''file'', url = None, path = Some ''static/a.pdf'',
                meta = []\<rparr>]\<rparr>]\<rparr>]\<rparr>,
         \<lparr>yname = ''2nd Year'', branches = [\<lparr>bname = ''ECE'', subjects =
           [\<lparr>sname = ''Signals'', resources =
              [\<lparr>title = ''Notes'', rtype = ''link'', url = Some ''http://x'', path = None,
                meta = []\<rparr>]\<rparr>]\<rparr>]\<rparr>]\<rparr>)
   \<and> (\<exists>m' fs'. delete_year json_dump 0 \<lparr>years =
        [\<lparr>yname = ''1st Year'', branches = [\<lparr>bname = ''CSE'', subjects =
           [\<lparr>sname = ''Maths'', resources =
              [\<lparr>title = ''Book'', rtype = ''file'', url = None, path = Some ''static/a.pdf'',
                meta = []\<rparr>]\<rparr>]\<rparr>]\<rparr>,
         \<lparr>yname = ''2nd Year'', branches = [\<lparr>bname = ''ECE'', subjects =
           [\<lparr>sname = ''Signals'', resources =
              [\<lparr>title = ''Notes'', rtype = ''link'', url = Some ''http://x'', path = None,
                meta = []\<rparr>]\<rparr>]\<rparr>]\<rparr>]\<rparr> [''static/a.pdf'' \<mapsto> ''data''] = Some (m', fs')
       \<and> flatten_resources m'
           = [\<lparr>year = ''2nd Year'', branch = ''ECE'', subject = ''Signals'', ftitle = ''Notes'',
               ftype = ''link'', furl = Some ''http://x'', fpath = None\<rparr>]
       \<and> fs' ''static/a.pdf'' = Some ''data'')"
proof (intro allI)
  fix json_dump :: "manifest \<Rightarrow> string"
  let ?y1 = "\<lparr>yname = ''1st Year'', branches = [\<lparr>bname = ''CSE'', subjects =
           [\<lparr>sname = ''Maths'', resources =
              [\<lparr>title = ''Book'', rtype = ''file'', url = None, path = Some ''static/a.pdf'',
                meta = []\<rparr>]\<rparr>]\<rparr>]\<rparr>"
  let ?y2 = "\<lparr>yname = ''2nd Year'', branches = [\<lparr>bname = ''ECE'', subjects =
           [\<lparr>sname = ''Signals'', resources =
              [\<lparr>title = ''Notes'', rtype = ''link'', url = Some ''http://x'', path = None,
                meta = []\<rparr>]\<rparr>]\<rparr>]\<rparr>"
  let ?m = "\<lparr>years = [?y1, ?y2]\<rparr>"
  let ?fs = "[''static/a.pdf'' \<mapsto> ''data'']"
  have h: "(0::nat) < length (years ?m)" by simp
  have mf: "''static/a.pdf'' \<noteq> MANIFEST_FILE" by (simp add: MANIFEST_FILE_def)
  have fl: "flatten_resources ?m
      = [\<lparr>year = ''1st Year'', branch = ''CSE'', subject = ''Maths'', ftitle = ''Book'',
          ftype = ''file'', furl = None, fpath = Some ''static/a.pdf''\<rparr>,
         \<lparr>year = ''2nd Year'', branch = ''ECE'', subject = ''Signals'', ftitle = ''Notes'',
          ftype = ''link'', furl = Some ''http://x'', fpath = None\<rparr>]"
    by (simp add: flatten_resources_def flatten_year_def flatten_branch_def flatten_subject_def)
  from delete_year_keeps_files [OF h, of json_dump ?fs]
  obtain m' where d:
    "delete_year json_dump 0 ?m ?fs = Some (m', save_manifest json_dump m' ?fs)"
    "distinct (map yname (years ?m)) \<longrightarrow>
       flatten_resources m' = filter (\<lambda>r. year r \<noteq> yname (years ?m ! 0)) (flatten_resources ?m)"
    "\<forall>p. p \<noteq> MANIFEST_FILE \<longrightarrow> save_manifest json_dump m' ?fs p = ?fs p"
    by (elim exE conjE) (rule that)
  from d(2) have f: "flatten_resources m'
      = [\<lparr>year = ''2nd Year'', branch = ''ECE'', subject = ''Signals'', ftitle = ''Notes'',
          ftype = ''link'', furl = Some ''http://x'', fpath = None\<rparr>]"
    unfolding fl by simp
  from d(3) mf have k: "save_manifest json_dump m' ?fs ''static/a.pdf'' = Some ''data''"
    by simp
  from d(1) f k have "\<exists>m' fs'. delete_year json_dump 0 ?m ?fs = Some (m', fs')
       \<and> flatten_resources m'
           = [\<lparr>year = ''2nd Year'', branch = ''ECE'', subject = ''Signals'', ftitle = ''Notes'',
               ftype = ''link'', furl = Some ''http://x'', fpath = None\<rparr>]
       \<and> fs' ''static/a.pdf'' = Some ''data''"
    by (intro exI [of _ m'] exI [of _ "save_manifest json_dump m' ?fs"] conjI)
  with h show "(0::nat) < length (years ?m)
   \<and> (\<exists>m' fs'. delete_year json_dump 0 ?m ?fs = Some (m', fs')
       \<and> flatten_resources m'
           = [\<lparr>year = ''2nd Year'', branch = ''ECE'', subject = ''Signals'', ftitle = ''Notes'',
               ftype = ''link'', furl = Some ''http://x'', fpath = None\<rparr>]
       \<and> fs' ''static/a.pdf'' = Some ''data'')"
    by (rule conjI)
qed

section \<open>Search\<close>














lemma is_ascii_sublist: "sublist t s \<Longrightarrow> is_ascii s \<Longrightarrow> is_ascii t"
  by (auto simp: sublist_def is_ascii_def)




end
